theory Spec2Isabelle
  imports Complex_Main "HOL-Library.AList"
begin

section \<open>Python values\<close>

text \<open>
  A Python \<open>str\<close> is modelled as a \<open>string\<close>, one \<open>char\<close> for each code point, so
  that \<open>length\<close> is Python's \<open>len\<close>. The code below only ever inspects ASCII characters
  (braces, white space, the placeholder text), so text limited to code points below 256
  takes every branch that arbitrary text takes.

  An exception is a value: its class name and the text that \<open>str(e)\<close> gives (for a
  decoding error, without the position that Python appends).
\<close>

datatype py_exception = Raised (exc_class: string) (exc_str: string)

text \<open>
  A Python \<open>float\<close>. No function of the repository computes with one: they are only
  passed through, so a finite float is represented by the number it stands for.
\<close>

datatype pyfloat = Finite real | PosInf | NegInf | NaN

text \<open>
  What \<open>json.loads\<close> and \<open>response.json()\<close> return: \<open>None\<close>, \<open>bool\<close>, \<open>int\<close>,
  \<open>float\<close>, \<open>str\<close>, \<open>list\<close> and \<open>dict\<close> (keys in insertion order, each key once).
\<close>

datatype json =
    JNull
  | JBool bool
  | JInt int
  | JFloat pyfloat
  | JString string
  | JArray "json list"
  | JObject "(string \<times> json) list"

section \<open>json.loads\<close>

text \<open>
  The decoder of Python's \<open>json\<close> module with its default settings, after the scanner
  of CPython: white space is blank, tab, line feed and carriage return; a string may
  hold no control character (\<open>strict\<close>); a number is
  \<^verbatim>\<open>-?(0|[1-9][0-9]*)(\.[0-9]+)?([eE][-+]?[0-9]+)?\<close>, an \<open>int\<close> when it has neither fraction
  nor exponent; a key given twice keeps its first place and its last value; text after
  the value is \<open>Extra data\<close>. Every failure is an exception. The functions that
  descend into nested values count their calls down from more than the length of the
  text, and running out is Python's \<open>RecursionError\<close>.
  An escape \<^verbatim>\<open>uXXXX\<close> of 256 or more names a character that \<open>string\<close> does not hold;
  the decoder stops there with an exception of class \<open>NotModelled\<close>.
\<close>

definition decode_error :: "string \<Rightarrow> py_exception + 'a" where
  "decode_error msg = Inl (Raised ''JSONDecodeError'' msg)"

definition is_json_ws :: "char \<Rightarrow> bool" where
  "is_json_ws c = (c = CHR '' '' \<or> c = CHR 0x09 \<or> c = CHR 0x0A \<or> c = CHR 0x0D)"

definition skip_ws :: "string \<Rightarrow> string" where
  "skip_ws s = dropWhile is_json_ws s"

definition expect :: "char \<Rightarrow> string \<Rightarrow> string option" where
  "expect c s = (case s of [] \<Rightarrow> None | x # xs \<Rightarrow> if x = c then Some xs else None)"

definition is_digit :: "char \<Rightarrow> bool" where
  "is_digit c = ((48::nat) \<le> of_char c \<and> of_char c \<le> (57::nat))"

definition digits_val :: "string \<Rightarrow> nat" where
  "digits_val ds = foldl (\<lambda>acc d. 10 * acc + (of_char d - 48)) 0 ds"

definition hex_val :: "char \<Rightarrow> nat option" where
  "hex_val c =
     (let n = (of_char c :: nat) in
      if 48 \<le> n \<and> n \<le> 57 then Some (n - 48)
      else if 97 \<le> n \<and> n \<le> 102 then Some (n - 87)
      else if 65 \<le> n \<and> n \<le> 70 then Some (n - 55)
      else None)"

fun hex4 :: "string \<Rightarrow> nat option" where
  "hex4 [a, b, c, d] =
     (case (hex_val a, hex_val b, hex_val c, hex_val d) of
        (Some x, Some y, Some z, Some w) \<Rightarrow> Some (((x * 16 + y) * 16 + z) * 16 + w)
      | _ \<Rightarrow> None)"
| "hex4 _ = None"

definition unescape :: "char \<Rightarrow> char option" where
  "unescape e =
     (if e = CHR 0x22 \<or> e = CHR 0x5C \<or> e = CHR ''/'' then Some e
      else if e = CHR ''b'' then Some (CHR 0x08)
      else if e = CHR ''f'' then Some (CHR 0x0C)
      else if e = CHR ''n'' then Some (CHR 0x0A)
      else if e = CHR ''r'' then Some (CHR 0x0D)
      else if e = CHR ''t'' then Some (CHR 0x09)
      else None)"

definition cons_char ::
  "char \<Rightarrow> py_exception + (string \<times> string) \<Rightarrow> py_exception + (string \<times> string)" where
  "cons_char c r = (case r of Inl e \<Rightarrow> Inl e | Inr (s, rest) \<Rightarrow> Inr (c # s, rest))"

text \<open>\<open>scanstring\<close> starts after the opening quote and returns the text and what follows the closing quote.\<close>

fun scanstring :: "string \<Rightarrow> py_exception + (string \<times> string)" where
  "scanstring [] = decode_error ''Unterminated string starting at''"
| "scanstring (c # cs) =
     (if c = CHR 0x22 then Inr ([], cs)
      else if c = CHR 0x5C then
        (case cs of
           [] \<Rightarrow> decode_error ''Unterminated string starting at''
         | e # cs' \<Rightarrow>
             if e = CHR ''u'' then
               (case hex4 (take 4 cs') of
                  None \<Rightarrow> decode_error ''Invalid uXXXX escape''
                | Some n \<Rightarrow>
                    if n < 256 then cons_char (char_of n) (scanstring (drop 4 cs'))
                    else Inl (Raised ''NotModelled'' ''escape above u00ff''))
             else
               (case unescape e of
                  None \<Rightarrow> decode_error ''Invalid escape''
                | Some d \<Rightarrow> cons_char d (scanstring cs')))
      else if (of_char c :: nat) < 32 then decode_error ''Invalid control character at''
      else cons_char c (scanstring cs))"

definition int_digits :: "string \<Rightarrow> (string \<times> string) option" where
  "int_digits s =
     (case s of
        [] \<Rightarrow> None
      | d # r \<Rightarrow>
          if d = CHR ''0'' then Some ([d], r)
          else if is_digit d then Some (d # takeWhile is_digit r, dropWhile is_digit r)
          else None)"

definition frac_digits :: "string \<Rightarrow> (string \<times> string) option" where
  "frac_digits s =
     (case s of
        p # d # r \<Rightarrow>
          if p = CHR ''.'' \<and> is_digit d then Some (d # takeWhile is_digit r, dropWhile is_digit r)
          else None
      | _ \<Rightarrow> None)"

definition exponent :: "string \<Rightarrow> (int \<times> string) option" where
  "exponent s =
     (case s of
        [] \<Rightarrow> None
      | e # r \<Rightarrow>
          if e = CHR ''e'' \<or> e = CHR ''E'' then
            (let (sgn, r') =
                   (case r of
                      [] \<Rightarrow> (1, r)
                    | x # xs \<Rightarrow>
                        if x = CHR ''-'' then (- 1, xs)
                        else if x = CHR ''+'' then (1, xs)
                        else (1, r))
             in if takeWhile is_digit r' = [] then None
                else Some (sgn * int (digits_val (takeWhile is_digit r')), dropWhile is_digit r'))
          else None)"

definition float_val :: "bool \<Rightarrow> string \<Rightarrow> string \<Rightarrow> int \<Rightarrow> pyfloat" where
  "float_val neg ip fp ex =
     (let m = real (digits_val ip) + real (digits_val fp) / 10 ^ length fp;
          v = (if 0 \<le> ex then m * 10 ^ nat ex else m / 10 ^ nat (- ex))
      in Finite (if neg then - v else v))"

definition match_number :: "string \<Rightarrow> py_exception + (json \<times> string)" where
  "match_number s =
     (let neg = (take 1 s = ''-''); s1 = (if neg then drop 1 s else s) in
      case int_digits s1 of
        None \<Rightarrow> decode_error ''Expecting value''
      | Some (ip, s2) \<Rightarrow>
          (let (fp, s3) = (case frac_digits s2 of None \<Rightarrow> (None, s2) | Some (f, r) \<Rightarrow> (Some f, r));
               (ex, s4) = (case exponent s3 of None \<Rightarrow> (None, s3) | Some (x, r) \<Rightarrow> (Some x, r))
           in if fp = None \<and> ex = None
              then Inr (JInt (if neg then - int (digits_val ip) else int (digits_val ip)), s4)
              else Inr (JFloat (float_val neg ip (case fp of None \<Rightarrow> [] | Some f \<Rightarrow> f)
                                  (case ex of None \<Rightarrow> 0 | Some x \<Rightarrow> x)), s4)))"

definition recursion_error :: "py_exception + 'a" where
  "recursion_error = Inl (Raised ''RecursionError'' ''maximum recursion depth exceeded'')"

fun scan_once :: "nat \<Rightarrow> string \<Rightarrow> py_exception + (json \<times> string)"
  and parse_object :: "nat \<Rightarrow> string \<Rightarrow> (string \<times> json) list \<Rightarrow> py_exception + (json \<times> string)"
  and parse_array :: "nat \<Rightarrow> string \<Rightarrow> json list \<Rightarrow> py_exception + (json \<times> string)"
where
  "scan_once 0 s = recursion_error"
| "scan_once (Suc n) s =
     (case s of
        [] \<Rightarrow> decode_error ''Expecting value''
      | c # cs \<Rightarrow>
          if c = CHR 0x22 then
            (case scanstring cs of Inl e \<Rightarrow> Inl e | Inr (str, rest) \<Rightarrow> Inr (JString str, rest))
          else if c = CHR ''{'' then
            (case expect (CHR ''}'') (skip_ws cs) of
               Some rest \<Rightarrow> Inr (JObject [], rest)
             | None \<Rightarrow> parse_object n (skip_ws cs) [])
          else if c = CHR ''['' then
            (case expect (CHR '']'') (skip_ws cs) of
               Some rest \<Rightarrow> Inr (JArray [], rest)
             | None \<Rightarrow> parse_array n (skip_ws cs) [])
          else if take 4 s = ''null'' then Inr (JNull, drop 4 s)
          else if take 4 s = ''true'' then Inr (JBool True, drop 4 s)
          else if take 5 s = ''false'' then Inr (JBool False, drop 5 s)
          else if take 3 s = ''NaN'' then Inr (JFloat NaN, drop 3 s)
          else if take 8 s = ''Infinity'' then Inr (JFloat PosInf, drop 8 s)
          else if take 9 s = ''-Infinity'' then Inr (JFloat NegInf, drop 9 s)
          else match_number s)"
| "parse_object 0 s acc = recursion_error"
| "parse_object (Suc n) s acc =
     (case expect (CHR 0x22) s of
        None \<Rightarrow> decode_error ''Expecting property name enclosed in double quotes''
      | Some cs \<Rightarrow>
     (case scanstring cs of
        Inl e \<Rightarrow> Inl e
      | Inr (key, r1) \<Rightarrow>
     (case expect (CHR '':'') (skip_ws r1) of
        None \<Rightarrow> decode_error ''Expecting : delimiter''
      | Some r2 \<Rightarrow>
     (case scan_once n (skip_ws r2) of
        Inl e \<Rightarrow> Inl e
      | Inr (v, r3) \<Rightarrow>
     (case expect (CHR ''}'') (skip_ws r3) of
        Some rest \<Rightarrow> Inr (JObject (AList.update key v acc), rest)
      | None \<Rightarrow>
     (case expect (CHR '','') (skip_ws r3) of
        None \<Rightarrow> decode_error ''Expecting , delimiter''
      | Some r4 \<Rightarrow> parse_object n (skip_ws r4) (AList.update key v acc)))))))"
| "parse_array 0 s acc = recursion_error"
| "parse_array (Suc n) s acc =
     (case scan_once n s of
        Inl e \<Rightarrow> Inl e
      | Inr (v, r1) \<Rightarrow>
     (case expect (CHR '']'') (skip_ws r1) of
        Some rest \<Rightarrow> Inr (JArray (acc @ [v]), rest)
      | None \<Rightarrow>
     (case expect (CHR '','') (skip_ws r1) of
        None \<Rightarrow> decode_error ''Expecting , delimiter''
      | Some r2 \<Rightarrow> parse_array n (skip_ws r2) (acc @ [v]))))"

definition json_loads :: "string \<Rightarrow> py_exception + json" where
  "json_loads s =
     (case scan_once (Suc (length s)) (skip_ws s) of
        Inl e \<Rightarrow> Inl e
      | Inr (obj, rest) \<Rightarrow> if skip_ws rest = [] then Inr obj else decode_error ''Extra data'')"

section \<open>The regular expression of research\<close>

text \<open>
  \<^verbatim>\<open>re.search(r'\{.*\}', response_text, re.DOTALL)\<close>, by the matching procedure of a
  backtracking engine. At a start position the pattern needs a \<open>{\<close>; then the greedy
  \<open>.*\<close> (with DOTALL every character, newlines too) first takes all of the rest and
  gives characters back one at a time until a \<open>}\<close> follows. \<open>dot_star_rbrace rest k\<close>
  is the attempt with \<open>.*\<close> holding \<open>k\<close> characters; it yields what \<open>.*\}\<close> matched.
\<close>

fun dot_star_rbrace :: "string \<Rightarrow> nat \<Rightarrow> string option" where
  "dot_star_rbrace rest k =
     (if k < length rest \<and> rest ! k = CHR ''}'' then Some (take (Suc k) rest)
      else (case k of 0 \<Rightarrow> None | Suc j \<Rightarrow> dot_star_rbrace rest j))"

declare dot_star_rbrace.simps [simp del]

definition match_at :: "string \<Rightarrow> string option" where
  "match_at s =
     (case s of
        [] \<Rightarrow> None
      | c # rest \<Rightarrow>
          if c = CHR ''{'' then map_option ((#) c) (dot_star_rbrace rest (length rest))
          else None)"

text \<open>\<open>re.search\<close> tries the start positions from left to right; \<open>.group()\<close> is the text matched.\<close>

fun re_search :: "string \<Rightarrow> string option" where
  "re_search [] = match_at []"
| "re_search (c # cs) =
     (case match_at (c # cs) of Some m \<Rightarrow> Some m | None \<Rightarrow> re_search cs)"

section \<open>ResearchFindings\<close>

record ResearchFindings =
  query :: string
  summary :: string
  key_findings :: "string list"
  sources :: "string list"
  timestamp :: string

text \<open>
  \<^verbatim>\<open>ResearchFindings(**findings_dict)\<close>: pydantic (version 2, which pydantic_ai needs)
  validates the keyword arguments against the declared fields. A \<open>str\<close> field takes a
  \<open>str\<close> and nothing else that JSON can hold; a \<open>list[str]\<close> field takes a list whose
  elements are all \<open>str\<close>. The four fields without a default are required; keys that
  are no field are ignored (no \<open>Config\<close> is declared); \<open>timestamp\<close>, when absent, is
  \<open>datetime.now().isoformat()\<close>, here the argument \<open>now\<close>. Any failure is one
  \<open>ValidationError\<close>.
\<close>

fun validate_str :: "json \<Rightarrow> string option" where
  "validate_str (JString s) = Some s"
| "validate_str _ = None"

fun validate_str_items :: "json list \<Rightarrow> string list option" where
  "validate_str_items [] = Some []"
| "validate_str_items (x # xs) =
     (case validate_str x of
        None \<Rightarrow> None
      | Some s \<Rightarrow> map_option ((#) s) (validate_str_items xs))"

fun validate_list_str :: "json \<Rightarrow> string list option" where
  "validate_list_str (JArray xs) = validate_str_items xs"
| "validate_list_str _ = None"

definition required :: "(json \<Rightarrow> 'a option) \<Rightarrow> (string \<times> json) list \<Rightarrow> string \<Rightarrow> 'a option" where
  "required validate kwargs name =
     (case map_of kwargs name of None \<Rightarrow> None | Some v \<Rightarrow> validate v)"

definition validation_error :: py_exception where
  "validation_error = Raised ''ValidationError'' ''validation errors for ResearchFindings''"

definition ResearchFindings_init ::
  "(string \<times> json) list \<Rightarrow> string \<Rightarrow> py_exception + ResearchFindings" where
  "ResearchFindings_init kwargs now =
     (case required validate_str kwargs ''query'' of
        None \<Rightarrow> Inl validation_error
      | Some q \<Rightarrow>
     (case required validate_str kwargs ''summary'' of
        None \<Rightarrow> Inl validation_error
      | Some s \<Rightarrow>
     (case required validate_list_str kwargs ''key_findings'' of
        None \<Rightarrow> Inl validation_error
      | Some kf \<Rightarrow>
     (case required validate_list_str kwargs ''sources'' of
        None \<Rightarrow> Inl validation_error
      | Some src \<Rightarrow>
     (case (case map_of kwargs ''timestamp'' of None \<Rightarrow> Some now | Some v \<Rightarrow> validate_str v) of
        None \<Rightarrow> Inl validation_error
      | Some ts \<Rightarrow>
          Inr \<lparr>query = q, summary = s, key_findings = kf, sources = src, timestamp = ts\<rparr>)))))"

section \<open>The synthesis step of research\<close>

text \<open>
  Lines 318 to 348 of \<^verbatim>\<open>research_agent.py\<close>: the inner \<^verbatim>\<open>try\<close> of \<open>research\<close>, which
  turns the backend's text into a \<open>ResearchFindings\<close>. \<open>loads\<close> is \<open>json.loads\<close>;
  \<open>now\<close> is the clock reading that the constructor's default takes.
  \<^verbatim>\<open>ResearchFindings(**v)\<close> with \<open>v\<close> not a dict is a \<open>TypeError\<close>, caught like every
  other exception by \<^verbatim>\<open>except (json.JSONDecodeError, Exception)\<close>.
\<close>

definition no_json_findings :: "string \<Rightarrow> string \<Rightarrow> string \<Rightarrow> ResearchFindings" where
  "no_json_findings response_text q now =
     \<lparr>query = q, summary = response_text,
      key_findings =
        [''Research completed using available tools'',
         ''Multiple sources were consulted'',
         ''Findings synthesized from web search and content analysis''],
      sources = [''Web search results'', ''Content analysis''],
      timestamp = now\<rparr>"

definition parse_failed_findings :: "string \<Rightarrow> string \<Rightarrow> string \<Rightarrow> ResearchFindings" where
  "parse_failed_findings response_text q now =
     \<lparr>query = q, summary = response_text,
      key_findings =
        [''Research completed using available tools'',
         ''Multiple sources were consulted''],
      sources = [''Agent analysis''],
      timestamp = now\<rparr>"

definition construct_findings :: "json \<Rightarrow> string \<Rightarrow> py_exception + ResearchFindings" where
  "construct_findings v now =
     (case v of
        JObject kwargs \<Rightarrow> ResearchFindings_init kwargs now
      | _ \<Rightarrow> Inl (Raised ''TypeError'' ''argument after ** must be a mapping''))"

definition synthesize ::
  "(string \<Rightarrow> py_exception + json) \<Rightarrow> string \<Rightarrow> string \<Rightarrow> string \<Rightarrow> ResearchFindings" where
  "synthesize loads response_text q now =
     (case re_search response_text of
        Some json_match \<Rightarrow>
          (case loads json_match of
             Inl e \<Rightarrow> parse_failed_findings response_text q now
           | Inr findings_dict \<Rightarrow>
               (case construct_findings findings_dict now of
                  Inl e \<Rightarrow> parse_failed_findings response_text q now
                | Inr findings \<Rightarrow> findings))
      | None \<Rightarrow> no_json_findings response_text q now)"


section \<open>research\<close>



definition nl :: string where
  "nl = [CHR 0x0A]"




section \<open>Python strings\<close>

text \<open>
  \<open>str.isspace\<close> and the line boundaries of \<open>str.splitlines\<close>, for the code points that
  \<open>char\<close> holds: tab to carriage return, the four separators \<open>0x1C\<close> to \<open>0x1F\<close>, blank,
  \<open>0x85\<close> and the no-break space are white space; all of these but tab, blank, \<open>0x1F\<close>
  and the no-break space end a line.
\<close>

definition py_isspace :: "char \<Rightarrow> bool" where
  "py_isspace c =
     (let n = (of_char c :: nat) in
      (9 \<le> n \<and> n \<le> 13) \<or> (28 \<le> n \<and> n \<le> 31) \<or> n = 32 \<or> n = 133 \<or> n = 160)"

definition is_linebreak :: "char \<Rightarrow> bool" where
  "is_linebreak c =
     (let n = (of_char c :: nat) in
      (10 \<le> n \<and> n \<le> 13) \<or> (28 \<le> n \<and> n \<le> 30) \<or> n = 133)"

definition strip :: "string \<Rightarrow> string" where
  "strip s = rev (dropWhile py_isspace (rev (dropWhile py_isspace s)))"

text \<open>
  \<open>s.splitlines()\<close>: \<open>cur\<close> holds the current line, last character first. A carriage
  return and a line feed after it are one boundary; no line follows the last boundary.
\<close>

fun splitlines_from :: "string \<Rightarrow> string \<Rightarrow> string list" where
  "splitlines_from cur [] = (if cur = [] then [] else [rev cur])"
| "splitlines_from cur (c # cs) =
     (if is_linebreak c then
        rev cur # splitlines_from []
          (if c = CHR 0x0D \<and> cs \<noteq> [] \<and> hd cs = CHR 0x0A then tl cs else cs)
      else splitlines_from (c # cur) cs)"

definition splitlines :: "string \<Rightarrow> string list" where
  "splitlines s = splitlines_from [] s"

text \<open>\<^verbatim>\<open>s.split("  ")\<close>: the pieces between the occurrences of two blanks, found from the left.\<close>

fun split_two_blanks :: "string \<Rightarrow> string list" where
  "split_two_blanks (a # b # r) =
     (if a = CHR '' '' \<and> b = CHR '' '' then [] # split_two_blanks r
      else (case split_two_blanks (b # r) of
              [] \<Rightarrow> [[a]]
            | p # ps \<Rightarrow> (a # p) # ps))"
| "split_two_blanks s = [s]"

text \<open>\<^verbatim>\<open>sep.join(parts)\<close>.\<close>

fun join :: "string \<Rightarrow> string list \<Rightarrow> string" where
  "join sep [] = []"
| "join sep [p] = p"
| "join sep (p # ps) = p @ sep @ join sep ps"

text \<open>\<^verbatim>\<open>needle in s\<close> for two strings.\<close>

fun contains :: "string \<Rightarrow> string \<Rightarrow> bool" where
  "contains needle [] = (needle = [])"
| "contains needle (c # cs) = (take (length needle) (c # cs) = needle \<or> contains needle cs)"

text \<open>\<^verbatim>\<open>xs[:n]\<close>: a negative \<open>n\<close> counts from the end.\<close>

definition slice_to :: "'a list \<Rightarrow> int \<Rightarrow> 'a list" where
  "slice_to xs n = (if 0 \<le> n then take (nat n) xs else take (length xs - nat (- n)) xs)"

section \<open>Python values at run time\<close>

text \<open>Truth value, iteration, \<open>.get\<close> and \<open>in\<close> of the values that a JSON reply can hold.\<close>

fun truthy :: "json \<Rightarrow> bool" where
  "truthy JNull = False"
| "truthy (JBool b) = b"
| "truthy (JInt n) = (n \<noteq> 0)"
| "truthy (JFloat f) = (f \<noteq> Finite 0)"
| "truthy (JString s) = (s \<noteq> [])"
| "truthy (JArray xs) = (xs \<noteq> [])"
| "truthy (JObject kvs) = (kvs \<noteq> [])"

fun type_name :: "json \<Rightarrow> string" where
  "type_name JNull = ''NoneType''"
| "type_name (JBool b) = ''bool''"
| "type_name (JInt n) = ''int''"
| "type_name (JFloat f) = ''float''"
| "type_name (JString s) = ''str''"
| "type_name (JArray xs) = ''list''"
| "type_name (JObject kvs) = ''dict''"

definition quoted :: "string \<Rightarrow> string" where
  "quoted s = [CHR 0x27] @ s @ [CHR 0x27]"

definition attribute_error :: "json \<Rightarrow> string \<Rightarrow> py_exception" where
  "attribute_error v name =
     Raised ''AttributeError'' (quoted (type_name v) @ '' object has no attribute '' @ quoted name)"

definition dict_get :: "json \<Rightarrow> string \<Rightarrow> json \<Rightarrow> py_exception + json" where
  "dict_get v key dflt =
     (case v of
        JObject kvs \<Rightarrow> Inr (case map_of kvs key of None \<Rightarrow> dflt | Some x \<Rightarrow> x)
      | _ \<Rightarrow> Inl (attribute_error v ''get''))"

definition iterate :: "json \<Rightarrow> py_exception + json list" where
  "iterate v =
     (case v of
        JArray xs \<Rightarrow> Inr xs
      | JString s \<Rightarrow> Inr (map (\<lambda>c. JString [c]) s)
      | JObject kvs \<Rightarrow> Inr (map (\<lambda>kv. JString (fst kv)) kvs)
      | _ \<Rightarrow> Inl (Raised ''TypeError'' (quoted (type_name v) @ '' object is not iterable'')))"

definition str_in :: "string \<Rightarrow> json \<Rightarrow> py_exception + bool" where
  "str_in needle v =
     (case v of
        JString s \<Rightarrow> Inr (contains needle s)
      | JArray xs \<Rightarrow> Inr (JString needle \<in> set xs)
      | JObject kvs \<Rightarrow> Inr (needle \<in> fst ` set kvs)
      | _ \<Rightarrow> Inl (Raised ''TypeError'' (''argument of type '' @ quoted (type_name v) @ '' is not iterable'')))"

section \<open>The network and the parsed page\<close>

text \<open>
  What BeautifulSoup builds: text, the strings that \<open>get_text\<close> leaves out (comments,
  declarations), and tags with their attributes and contents.
\<close>

datatype node =
    NavigableString string
  | Comment string
  | Tag string "(string \<times> string) list" "node list"

text \<open>
  The requests of the two providers. \<open>PostSearch key q n\<close> and \<open>PostFetch key url\<close> go to
  the primary provider with the bearer credential; \<open>GetSearch q\<close> is the GET of the
  public search page and \<open>GetPage url\<close> the GET of the page itself. A request returns
  a response or raises (connection error, timeout).
\<close>

datatype request =
    PostSearch string string int
  | PostFetch string string
  | GetSearch string
  | GetPage string

record http_response =
  status_code :: int
  json_body :: "py_exception + json"
  body_text :: string

text \<open>
  Everything outside the repository that its functions consult: the environment variable
  \<open>CONTEXT7_API_KEY\<close>, the network, the HTML parser behind \<^verbatim>\<open>BeautifulSoup(text, 'html.parser')\<close>,
  and what pydantic makes of a value that is neither \<open>None\<close> nor a number where a
  \<open>float\<close> is declared (\<open>None\<close> for a validation error).
\<close>

record world =
  api_key :: "string option"
  http :: "request \<Rightarrow> py_exception + http_response"
  html_parser :: "string \<Rightarrow> node list"
  lax_float :: "json \<Rightarrow> pyfloat option"

section \<open>BeautifulSoup queries\<close>

fun descendants :: "node \<Rightarrow> node list" where
  "descendants (Tag name attrs cs) = concat (map (\<lambda>c. c # descendants c) cs)"
| "descendants _ = []"

definition find_all :: "(node \<Rightarrow> bool) \<Rightarrow> node list \<Rightarrow> node list" where
  "find_all p roots = filter p (concat (map (\<lambda>c. c # descendants c) roots))"

definition find_first :: "(node \<Rightarrow> bool) \<Rightarrow> node \<Rightarrow> node option" where
  "find_first p n = (case filter p (descendants n) of [] \<Rightarrow> None | x # xs \<Rightarrow> Some x)"

fun tag_named :: "string list \<Rightarrow> node \<Rightarrow> bool" where
  "tag_named names (Tag name attrs cs) = (name \<in> set names)"
| "tag_named names _ = False"

fun words_from :: "string \<Rightarrow> string \<Rightarrow> string list" where
  "words_from cur [] = (if cur = [] then [] else [rev cur])"
| "words_from cur (c # cs) =
     (if py_isspace c then (if cur = [] then words_from [] cs else rev cur # words_from [] cs)
      else words_from (c # cur) cs)"

fun get_attr :: "node \<Rightarrow> string \<Rightarrow> string option" where
  "get_attr (Tag name attrs cs) key = map_of attrs key"
| "get_attr _ key = None"

text \<open>The filter \<^verbatim>\<open>(name, class_=cls)\<close>: the tag's name, and \<open>cls\<close> among its classes.\<close>

definition tag_with_class :: "string \<Rightarrow> string \<Rightarrow> node \<Rightarrow> bool" where
  "tag_with_class name cls n =
     (tag_named [name] n \<and>
      (case get_attr n ''class'' of None \<Rightarrow> False | Some v \<Rightarrow> cls \<in> set (words_from [] v)))"

fun all_strings :: "node \<Rightarrow> string list" where
  "all_strings (NavigableString s) = [s]"
| "all_strings (Comment s) = []"
| "all_strings (Tag name attrs cs) = concat (map all_strings cs)"

definition get_text :: "node list \<Rightarrow> string" where
  "get_text roots = concat (concat (map all_strings roots))"

definition get_text_strip :: "node \<Rightarrow> string" where
  "get_text_strip n = concat (filter (\<lambda>t. t \<noteq> []) (map strip (all_strings n)))"

text \<open>
  \<^verbatim>\<open>for script in soup(names): script.decompose()\<close>: every tag with one of the names
  leaves the tree, with all that it contains.
\<close>

fun decompose_all :: "string list \<Rightarrow> node \<Rightarrow> node" where
  "decompose_all names (Tag name attrs cs) =
     Tag name attrs (map (decompose_all names) (filter (\<lambda>c. \<not> tag_named names c) cs))"
| "decompose_all names n = n"

definition decompose_soup :: "string list \<Rightarrow> node list \<Rightarrow> node list" where
  "decompose_soup names roots = map (decompose_all names) (filter (\<lambda>c. \<not> tag_named names c) roots)"

section \<open>context7_integration.py\<close>

definition unconfigured :: "string option \<Rightarrow> bool" where
  "unconfigured key = (case key of None \<Rightarrow> True | Some k \<Rightarrow> k = [] \<or> take 5 k = ''dummy'')"

text \<open>
  Each function returns its value and the requests it made, in order.
  \<open>Context7Search.search\<close> returns \<open>[]\<close> for every exception inside its \<^verbatim>\<open>try\<close>; among
  them the \<open>AttributeError\<close> of \<^verbatim>\<open>data.get\<close> when the reply is no object.
\<close>

definition Context7Search_search :: "world \<Rightarrow> string \<Rightarrow> int \<Rightarrow> json \<times> request list" where
  "Context7Search_search w q max_results =
     (case api_key w of
        None \<Rightarrow> (JArray [], [])
      | Some k \<Rightarrow>
          if unconfigured (Some k) then (JArray [], [])
          else
            (case http w (PostSearch k q max_results) of
               Inl e \<Rightarrow> JArray []
             | Inr response \<Rightarrow>
                 if status_code response = 200 then
                   (case json_body response of
                      Inl e \<Rightarrow> JArray []
                    | Inr data \<Rightarrow>
                        (case dict_get data ''results'' (JArray []) of
                           Inl e \<Rightarrow> JArray []
                         | Inr results \<Rightarrow> results))
                 else JArray [],
             [PostSearch k q max_results]))"

definition error_fetching :: "string \<Rightarrow> py_exception \<Rightarrow> string" where
  "error_fetching url e = ''Error fetching '' @ url @ '': '' @ exc_str e"

definition Context7Search_fetch_content :: "world \<Rightarrow> string \<Rightarrow> json \<times> request list" where
  "Context7Search_fetch_content w url =
     (case api_key w of
        None \<Rightarrow> (JString (''Content from '' @ url @ '' (Context7 API key required for real data)''), [])
      | Some k \<Rightarrow>
          if unconfigured (Some k) then
            (JString (''Content from '' @ url @ '' (Context7 API key required for real data)''), [])
          else
            (case http w (PostFetch k url) of
               Inl e \<Rightarrow> JString (error_fetching url e)
             | Inr response \<Rightarrow>
                 if status_code response = 200 then
                   (case json_body response of
                      Inl e \<Rightarrow> JString (error_fetching url e)
                    | Inr data \<Rightarrow>
                        (case dict_get data ''content'' (JString []) of
                           Inl e \<Rightarrow> JString (error_fetching url e)
                         | Inr content \<Rightarrow> content))
                 else JString (''Failed to fetch '' @ url),
             [PostFetch k url]))"

definition result_dict :: "node \<Rightarrow> json list" where
  "result_dict result =
     (case find_first (tag_with_class ''a'' ''result__a'') result of
        None \<Rightarrow> []
      | Some title_elem \<Rightarrow>
          [JObject
             [(''title'', JString (get_text_strip title_elem)),
              (''url'', JString (case get_attr title_elem ''href'' of None \<Rightarrow> [] | Some h \<Rightarrow> h)),
              (''snippet'',
                 JString (case find_first (tag_with_class ''a'' ''result__snippet'') result of
                            None \<Rightarrow> []
                          | Some snippet_elem \<Rightarrow> get_text_strip snippet_elem))]])"

definition fallback_search :: "world \<Rightarrow> string \<Rightarrow> int \<Rightarrow> json \<times> request list" where
  "fallback_search w q max_results =
     (case http w (GetSearch q) of
        Inl e \<Rightarrow> JArray []
      | Inr response \<Rightarrow>
          JArray (concat (map result_dict
            (slice_to (find_all (tag_with_class ''div'' ''result'') (html_parser w (body_text response)))
               max_results))),
      [GetSearch q])"

text \<open>The cleaning of the page text in \<open>fallback_fetch\<close>, and its limit.\<close>

definition clean_text :: "string \<Rightarrow> string" where
  "clean_text t =
     join nl (filter (\<lambda>chunk. chunk \<noteq> [])
       (concat (map (\<lambda>line. map strip (split_two_blanks line)) (map strip (splitlines t)))))"

definition limit_length :: "string \<Rightarrow> string" where
  "limit_length t = (if length t > 5000 then take 5000 t @ ''...'' else t)"

definition fallback_fetch :: "world \<Rightarrow> string \<Rightarrow> string \<times> request list" where
  "fallback_fetch w url =
     (case http w (GetPage url) of
        Inl e \<Rightarrow> error_fetching url e
      | Inr response \<Rightarrow>
          limit_length (clean_text (get_text
            (decompose_soup [''script'', ''style''] (html_parser w (body_text response))))),
      [GetPage url])"

section \<open>The tools of the agent\<close>

record SearchResult =
  title :: string
  url :: string
  snippet :: string
  relevance_score :: "pyfloat option"

text \<open>
  \<^verbatim>\<open>SearchResult(title=..., url=..., snippet=..., relevance_score=...)\<close>, validated by
  pydantic: three \<open>str\<close> fields and an \<open>Optional[float]\<close>, which takes \<open>None\<close>, a
  \<open>float\<close> and an \<open>int\<close>.
\<close>

definition validate_optional_float :: "world \<Rightarrow> json \<Rightarrow> pyfloat option option" where
  "validate_optional_float w v =
     (case v of
        JNull \<Rightarrow> Some None
      | JFloat f \<Rightarrow> Some (Some f)
      | JInt n \<Rightarrow> Some (Some (Finite (of_int n)))
      | _ \<Rightarrow> map_option Some (lax_float w v))"

definition SearchResult_init ::
  "world \<Rightarrow> json \<Rightarrow> json \<Rightarrow> json \<Rightarrow> json \<Rightarrow> py_exception + SearchResult" where
  "SearchResult_init w t u s r =
     (case (validate_str t, validate_str u, validate_str s, validate_optional_float w r) of
        (Some t', Some u', Some s', Some r') \<Rightarrow>
          Inr \<lparr>title = t', url = u', snippet = s', relevance_score = r'\<rparr>
      | _ \<Rightarrow> Inl (Raised ''ValidationError'' ''validation errors for SearchResult''))"

definition to_SearchResult :: "world \<Rightarrow> json \<Rightarrow> py_exception + SearchResult" where
  "to_SearchResult w item =
     (case dict_get item ''title'' (JString []) of Inl e \<Rightarrow> Inl e | Inr t \<Rightarrow>
     (case dict_get item ''url'' (JString []) of Inl e \<Rightarrow> Inl e | Inr u \<Rightarrow>
     (case dict_get item ''content'' (JString []) of Inl e \<Rightarrow> Inl e | Inr c \<Rightarrow>
     (case dict_get item ''snippet'' c of Inl e \<Rightarrow> Inl e | Inr s \<Rightarrow>
     (case dict_get item ''score'' JNull of Inl e \<Rightarrow> Inl e | Inr r \<Rightarrow>
        SearchResult_init w t u s r)))))"

text \<open>The loop that appends to \<open>results\<close>; the first exception ends it.\<close>

fun convert_items :: "world \<Rightarrow> json list \<Rightarrow> py_exception + SearchResult list" where
  "convert_items w [] = Inr []"
| "convert_items w (item # items) =
     (case to_SearchResult w item of
        Inl e \<Rightarrow> Inl e
      | Inr r \<Rightarrow> (case convert_items w items of Inl e \<Rightarrow> Inl e | Inr rs \<Rightarrow> Inr (r # rs)))"

definition no_results :: "string \<Rightarrow> SearchResult" where
  "no_results q =
     \<lparr>title = ''Search for: '' @ q, url = [],
      snippet = ''No search results available at this time'',
      relevance_score = Some (Finite 0)\<rparr>"

definition search_error :: "py_exception \<Rightarrow> SearchResult" where
  "search_error e =
     \<lparr>title = ''Search error'', url = [],
      snippet = ''Search functionality encountered an error: '' @ exc_str e,
      relevance_score = Some (Finite 0)\<rparr>"

text \<open>
  \<open>search_web\<close>, with \<open>max_results\<close> for \<^verbatim>\<open>ctx.deps.max_search_results\<close>. Neither provider
  function raises, so the handler of \<open>search_web\<close> is reached from the loop only.
\<close>

definition search_web :: "world \<Rightarrow> string \<Rightarrow> int \<Rightarrow> SearchResult list \<times> request list" where
  "search_web w q max_results =
     (let (primary, calls) = Context7Search_search w q max_results;
          (search_results, calls') =
             (if \<not> truthy primary
              then (let (secondary, more) = fallback_search w q max_results in (secondary, calls @ more))
              else (primary, calls))
      in (case iterate search_results of
            Inl e \<Rightarrow> [search_error e]
          | Inr items \<Rightarrow>
              (case convert_items w items of
                 Inl e \<Rightarrow> [search_error e]
               | Inr results \<Rightarrow> if results \<noteq> [] then results else [no_results q]),
          calls'))"

text \<open>
  \<open>fetch_webpage_content\<close>. What it returns is a \<open>str\<close> on every path but one: a reply
  of the primary provider whose \<open>content\<close> is a non-empty list or object without the
  placeholder text is returned as it came.
\<close>

definition fetch_webpage_content :: "world \<Rightarrow> string \<Rightarrow> json \<times> request list" where
  "fetch_webpage_content w page_url =
     (let (content, calls) = Context7Search_fetch_content w page_url in
      case (if \<not> truthy content then Inr True else str_in ''Context7 API key required'' content) of
        Inl e \<Rightarrow> (JString (error_fetching page_url e), calls)
      | Inr use_fallback \<Rightarrow>
          if use_fallback
          then (let (page, more) = fallback_fetch w page_url in (JString page, calls @ more))
          else (content, calls))"

section \<open>Notions for the statements\<close>

text \<open>The four fields of the findings that do not come from the clock.\<close>

definition content :: "ResearchFindings \<Rightarrow> string \<times> string \<times> string list \<times> string list" where
  "content f = (query f, summary f, key_findings f, sources f)"

text \<open>What \<open>search_web\<close> returns for a given value of \<open>search_results\<close>: the end of its \<^verbatim>\<open>try\<close>.\<close>

definition results_of :: "world \<Rightarrow> string \<Rightarrow> json \<Rightarrow> SearchResult list" where
  "results_of w q v =
     (case iterate v of
        Inl e \<Rightarrow> [search_error e]
      | Inr items \<Rightarrow>
          (case convert_items w items of
             Inl e \<Rightarrow> [search_error e]
           | Inr results \<Rightarrow> if results \<noteq> [] then results else [no_results q]))"

text \<open>
  The strings of a tree that lie outside every element with one of the given names:
  the page text with the script and style elements left out, said in one pass.
\<close>

fun visible_strings :: "string list \<Rightarrow> node \<Rightarrow> string list" where
  "visible_strings names (NavigableString s) = [s]"
| "visible_strings names (Comment s) = []"
| "visible_strings names (Tag name attrs cs) =
     (if name \<in> set names then [] else concat (map (visible_strings names) cs))"

text \<open>
  A chunk of cleaned text: not empty, no white space at either end, no two blanks in a
  row and no line boundary inside.
\<close>

definition tidy :: "string \<Rightarrow> bool" where
  "tidy c = (c \<noteq> [] \<and> \<not> py_isspace (hd c) \<and> \<not> py_isspace (last c) \<and>
             (\<nexists>xs ys. c = xs @ ''  '' @ ys) \<and> (\<forall>x\<in>set c. \<not> is_linebreak x))"

section \<open>Worlds for the examples\<close>

text \<open>
  \<open>served key status reply page\<close> answers every request with the given status and JSON
  body, and its parser reads every text as \<open>page\<close>; in \<open>offline key\<close> every request
  raises.
\<close>

definition served :: "string option \<Rightarrow> int \<Rightarrow> json \<Rightarrow> node list \<Rightarrow> world" where
  "served key status reply page =
     \<lparr>api_key = key,
      http = (\<lambda>r. Inr \<lparr>status_code = status, json_body = Inr reply, body_text = []\<rparr>),
      html_parser = (\<lambda>t. page),
      lax_float = (\<lambda>v. None)\<rparr>"

definition offline :: "string option \<Rightarrow> world" where
  "offline key =
     \<lparr>api_key = key,
      http = (\<lambda>r. Inl (Raised ''ConnectError'' ''All connection attempts failed'')),
      html_parser = (\<lambda>t. []),
      lax_float = (\<lambda>v. None)\<rparr>"

section \<open>What the regular expression matches\<close>

lemma dot_star_rbrace_step:
  "\<not> (Suc k < length rest \<and> rest ! Suc k = CHR ''}'') \<Longrightarrow>
   dot_star_rbrace rest (Suc k) = dot_star_rbrace rest k"
  by (subst dot_star_rbrace.simps) auto

lemma dot_star_rbrace_none: "CHR ''}'' \<notin> set rest \<Longrightarrow> dot_star_rbrace rest k = None"
proof (induction k)
  case 0
  then have "\<not> (0 < length rest \<and> rest ! 0 = CHR ''}'')"
    by (metis nth_mem)
  then show ?case by (subst dot_star_rbrace.simps) auto
next
  case (Suc k)
  then have "\<not> (Suc k < length rest \<and> rest ! Suc k = CHR ''}'')"
    by (metis nth_mem)
  then show ?case using Suc by (simp add: dot_star_rbrace_step)
qed

lemma dot_star_rbrace_last:
  assumes "CHR ''}'' \<notin> set post"
  shows "dot_star_rbrace (mid @ CHR ''}'' # post) (length mid + j) = Some (mid @ ''}'')"
proof (induction j)
  case 0
  show ?case by (subst dot_star_rbrace.simps) simp
next
  case (Suc j)
  have "\<not> (Suc (length mid + j) < length (mid @ CHR ''}'' # post)
           \<and> (mid @ CHR ''}'' # post) ! Suc (length mid + j) = CHR ''}'')"
    using assms by (auto simp: nth_append in_set_conv_nth)
  then have "dot_star_rbrace (mid @ CHR ''}'' # post) (Suc (length mid + j))
             = dot_star_rbrace (mid @ CHR ''}'' # post) (length mid + j)"
    by (rule dot_star_rbrace_step)
  with Suc show ?case by simp
qed

lemma match_at_brace:
  assumes "CHR ''}'' \<notin> set post"
  shows "match_at (CHR ''{'' # mid @ CHR ''}'' # post) = Some (CHR ''{'' # mid @ ''}'')"
proof -
  have "dot_star_rbrace (mid @ CHR ''}'' # post) (length mid + Suc (length post)) = Some (mid @ ''}'')"
    using assms by (rule dot_star_rbrace_last)
  then show ?thesis by (simp add: match_at_def)
qed

lemma match_at_other: "c \<noteq> CHR ''{'' \<Longrightarrow> match_at (c # cs) = None"
  by (simp add: match_at_def)

lemma re_search_skip: "CHR ''{'' \<notin> set pre \<Longrightarrow> re_search (pre @ s) = re_search s"
  by (induction pre) (auto simp: match_at_other)

lemma re_search_first_last:
  assumes "CHR ''{'' \<notin> set pre" and "CHR ''}'' \<notin> set post"
  shows "re_search (pre @ CHR ''{'' # mid @ CHR ''}'' # post) = Some (CHR ''{'' # mid @ ''}'')"
  using assms by (simp add: re_search_skip match_at_brace)

lemma dot_star_rbrace_Some:
  "dot_star_rbrace rest k = Some m \<Longrightarrow> \<exists>mid post. rest = mid @ CHR ''}'' # post \<and> m = mid @ ''}''"
proof (induction k)
  case 0
  then have "0 < length rest \<and> rest ! 0 = CHR ''}'' \<and> m = take (Suc 0) rest"
    by (subst (asm) dot_star_rbrace.simps) (auto split: if_splits)
  then have "rest = [] @ CHR ''}'' # tl rest \<and> m = [] @ ''}''"
    by (cases rest) auto
  then show ?case by blast
next
  case (Suc k)
  show ?case
  proof (cases "Suc k < length rest \<and> rest ! Suc k = CHR ''}''")
    case True
    then have "m = take (Suc (Suc k)) rest" using Suc.prems by (subst (asm) dot_star_rbrace.simps) simp
    moreover have "rest = take (Suc k) rest @ CHR ''}'' # drop (Suc (Suc k)) rest"
      using True by (metis id_take_nth_drop)
    moreover have "take (Suc (Suc k)) rest = take (Suc k) rest @ ''}''"
      using True by (metis take_Suc_conv_app_nth)
    ultimately show ?thesis by blast
  next
    case False
    then have "dot_star_rbrace rest k = Some m"
      using Suc.prems dot_star_rbrace_step by simp
    then show ?thesis by (rule Suc.IH)
  qed
qed

lemma re_search_Some:
  "re_search s = Some m \<Longrightarrow> \<exists>pre mid post. s = pre @ CHR ''{'' # mid @ CHR ''}'' # post \<and> m = CHR ''{'' # mid @ ''}''"
proof (induction s)
  case Nil
  then show ?case by (simp add: match_at_def)
next
  case (Cons c cs)
  show ?case
  proof (cases "match_at (c # cs)")
    case None
    then have "re_search cs = Some m" using Cons.prems by simp
    then obtain pre mid post where "cs = pre @ CHR ''{'' # mid @ CHR ''}'' # post" "m = CHR ''{'' # mid @ ''}''"
      using Cons.IH by blast
    then have "c # cs = (c # pre) @ CHR ''{'' # mid @ CHR ''}'' # post \<and> m = CHR ''{'' # mid @ ''}''" by simp
    then show ?thesis by blast
  next
    case (Some a)
    then have am: "a = m" using Cons.prems by simp
    from Some obtain r where c: "c = CHR ''{''" and r: "dot_star_rbrace cs (length cs) = Some r" and a: "a = c # r"
      by (auto simp: match_at_def split: if_splits)
    from dot_star_rbrace_Some [OF r] obtain mid post where "cs = mid @ CHR ''}'' # post" "r = mid @ ''}''" by blast
    then have "c # cs = [] @ CHR ''{'' # mid @ CHR ''}'' # post \<and> m = CHR ''{'' # mid @ ''}''"
      using c a am by simp
    then show ?thesis by blast
  qed
qed


lemma re_search_None_iff:
  "re_search s = None \<longleftrightarrow> (\<nexists>pre mid post. s = pre @ CHR ''{'' # mid @ CHR ''}'' # post)"
proof
  assume none: "re_search s = None"
  show "\<nexists>pre mid post. s = pre @ CHR ''{'' # mid @ CHR ''}'' # post"
  proof
    assume "\<exists>pre mid post. s = pre @ CHR ''{'' # mid @ CHR ''}'' # post"
    then obtain pre mid post where s: "s = pre @ CHR ''{'' # mid @ CHR ''}'' # post" by blast
    obtain p1 p2 where p: "pre @ ''{'' = p1 @ CHR ''{'' # p2" "CHR ''{'' \<notin> set p1"
      using split_list_first [of "CHR ''{''" "pre @ ''{''"] by auto
    obtain q1 q2 where q: "CHR ''}'' # post = q1 @ CHR ''}'' # q2" "CHR ''}'' \<notin> set q2"
      using split_list_last [of "CHR ''}''" "CHR ''}'' # post"] by auto
    have "s = (pre @ ''{'') @ mid @ (CHR ''}'' # post)" using s by simp
    also have "\<dots> = p1 @ CHR ''{'' # (p2 @ mid @ q1) @ CHR ''}'' # q2"
      unfolding p(1) q(1) by simp
    finally have "re_search s = Some (CHR ''{'' # (p2 @ mid @ q1) @ ''}'')"
      using re_search_first_last [OF p(2) q(2), of "p2 @ mid @ q1"] by simp
    with none show False by simp
  qed
next
  assume "\<nexists>pre mid post. s = pre @ CHR ''{'' # mid @ CHR ''}'' # post"
  then show "re_search s = None"
    using re_search_Some [of s] by (cases "re_search s") auto
qed

section \<open>The paths of the synthesis step\<close>

lemma synthesize_no_match:
  "re_search raw = None \<Longrightarrow> synthesize loads raw q now = no_json_findings raw q now"
  by (simp add: synthesize_def)

lemma synthesize_decode_fault:
  "re_search raw = Some m \<Longrightarrow> loads m = Inl e \<Longrightarrow>
   synthesize loads raw q now = parse_failed_findings raw q now"
  by (simp add: synthesize_def)

lemma synthesize_construct_fault:
  "re_search raw = Some m \<Longrightarrow> loads m = Inr v \<Longrightarrow> construct_findings v now = Inl e \<Longrightarrow>
   synthesize loads raw q now = parse_failed_findings raw q now"
  by (simp add: synthesize_def)

lemma synthesize_structured:
  "re_search raw = Some m \<Longrightarrow> loads m = Inr v \<Longrightarrow> construct_findings v now = Inr f \<Longrightarrow>
   synthesize loads raw q now = f"
  by (simp add: synthesize_def)

lemma construct_Inr:
  "construct_findings v now = Inr f \<Longrightarrow> \<exists>kw. v = JObject kw \<and> ResearchFindings_init kw now = Inr f"
  by (cases v) (simp_all add: construct_findings_def)

lemma synthesize_cases:
  obtains (no_match) "re_search raw = None" "synthesize loads raw q now = no_json_findings raw q now"
  | (fault) m where "re_search raw = Some m"
      "(\<exists>e. loads m = Inl e) \<or> (\<exists>v e. loads m = Inr v \<and> construct_findings v now = Inl e)"
      "synthesize loads raw q now = parse_failed_findings raw q now"
  | (structured) m kw where "re_search raw = Some m" "loads m = Inr (JObject kw)"
      "ResearchFindings_init kw now = Inr (synthesize loads raw q now)"
proof (cases "re_search raw")
  case None
  then show ?thesis using no_match synthesize_no_match by blast
next
  case (Some m)
  show ?thesis
  proof (cases "loads m")
    case (Inl e)
    moreover have "synthesize loads raw q now = parse_failed_findings raw q now"
      using Some Inl by (simp add: synthesize_def)
    ultimately show ?thesis using fault [OF Some] by blast
  next
    case (Inr v)
    show ?thesis
    proof (cases "construct_findings v now")
      case (Inl e)
      moreover have "synthesize loads raw q now = parse_failed_findings raw q now"
        using Some Inr Inl by (simp add: synthesize_def)
      ultimately show ?thesis using fault [OF Some] Inr by blast
    next
      case r: (Inr f)
      then obtain kw where kw: "v = JObject kw" "ResearchFindings_init kw now = Inr f"
        using construct_Inr by blast
      have "synthesize loads raw q now = f" using Some Inr r by (simp add: synthesize_def)
      then show ?thesis using structured [OF Some] Inr kw by simp
    qed
  qed
qed


lemma ResearchFindings_init_Inr:
  "ResearchFindings_init kw now = Inr f \<Longrightarrow>
   required validate_str kw ''query'' = Some (query f) \<and>
   required validate_str kw ''summary'' = Some (summary f) \<and>
   required validate_list_str kw ''key_findings'' = Some (key_findings f) \<and>
   required validate_list_str kw ''sources'' = Some (sources f) \<and>
   (case map_of kw ''timestamp'' of None \<Rightarrow> Some now | Some v \<Rightarrow> validate_str v) = Some (timestamp f)"
  unfolding ResearchFindings_init_def by (auto split: option.splits)

lemma validate_str_Some: "validate_str v = Some s \<longleftrightarrow> v = JString s"
  by (cases v) auto

lemma required_str_Some:
  "required validate_str kw k = Some s \<longleftrightarrow> map_of kw k = Some (JString s)"
  by (auto simp: required_def validate_str_Some split: option.splits)

lemma ResearchFindings_init_clock:
  "map_sum id content (ResearchFindings_init kw t1) = map_sum id content (ResearchFindings_init kw t2)"
  unfolding ResearchFindings_init_def content_def by (simp split: option.splits)

lemma construct_clock:
  "map_sum id content (construct_findings v t1) = map_sum id content (construct_findings v t2)"
  by (cases v) (simp_all add: construct_findings_def ResearchFindings_init_clock)

lemma synthesize_clock:
  "content (synthesize loads raw q t1) = content (synthesize loads raw q t2)"
proof (cases "re_search raw")
  case None
  then show ?thesis by (simp add: synthesize_def no_json_findings_def content_def)
next
  case (Some m)
  show ?thesis
  proof (cases "loads m")
    case (Inl e)
    with Some show ?thesis by (simp add: synthesize_def parse_failed_findings_def content_def)
  next
    case (Inr v)
    have c: "map_sum id content (construct_findings v t1) = map_sum id content (construct_findings v t2)"
      by (rule construct_clock)
    show ?thesis
    proof (cases "construct_findings v t1")
      case l1: (Inl e1)
      then obtain e2 where "construct_findings v t2 = Inl e2" using c by (cases "construct_findings v t2") auto
      with l1 Some Inr show ?thesis
        by (simp add: synthesize_def parse_failed_findings_def content_def)
    next
      case r1: (Inr f1)
      then obtain f2 where "construct_findings v t2 = Inr f2" "content f1 = content f2"
        using c by (cases "construct_findings v t2") auto
      with r1 Some Inr show ?thesis by (simp add: synthesize_def)
    qed
  qed
qed



section \<open>Claims about the synthesis step\<close>

text \<open>
  C1, as amended. The synthesis step is a total function into \<open>ResearchFindings\<close>: for
  every decoder, text, query and clock reading it returns a value (no parsing fault
  reaches the caller), and the value comes from one of three places. Either the text
  held a brace-delimited region that decoded to an object which the constructor
  accepted, and the result is the constructor's; then \<open>key_findings\<close> and \<open>sources\<close>
  are the lists of that object, whatever their length. Or the result is one of the two
  degraded forms, and then \<open>key_findings\<close> and \<open>sources\<close> are both non-empty.
\<close>

theorem synthesize_total:
  "(\<exists>m kw. re_search raw = Some m \<and> loads m = Inr (JObject kw) \<and>
       ResearchFindings_init kw now = Inr (synthesize loads raw q now) \<and>
       required validate_list_str kw ''key_findings'' = Some (key_findings (synthesize loads raw q now)) \<and>
       required validate_list_str kw ''sources'' = Some (sources (synthesize loads raw q now)))
   \<or> ((synthesize loads raw q now = no_json_findings raw q now \<or>
        synthesize loads raw q now = parse_failed_findings raw q now) \<and>
       key_findings (synthesize loads raw q now) \<noteq> [] \<and>
       sources (synthesize loads raw q now) \<noteq> [])"
proof (cases rule: synthesize_cases [of raw loads q now])
  case no_match
  then show ?thesis by (simp add: no_json_findings_def)
next
  case (fault m)
  then show ?thesis by (simp add: parse_failed_findings_def)
next
  case (structured m kw)
  then show ?thesis using ResearchFindings_init_Inr [OF structured(3)] by blast
qed

theorem synthesize_total_witness:
  "synthesize json_loads ''I found some interesting things'' ''ai'' ''2025-01-01'' =
     no_json_findings ''I found some interesting things'' ''ai'' ''2025-01-01'' \<and>
   key_findings (synthesize json_loads ''I found some interesting things'' ''ai'' ''2025-01-01'') \<noteq> [] \<and>
   sources (synthesize json_loads ''I found some interesting things'' ''ai'' ''2025-01-01'') \<noteq> []"
proof -
  have none: "re_search ''I found some interesting things'' = None" by code_simp
  have ne: "no_json_findings ''I found some interesting things'' ''ai'' ''2025-01-01''
            \<noteq> parse_failed_findings ''I found some interesting things'' ''ai'' ''2025-01-01''"
    by (simp add: no_json_findings_def parse_failed_findings_def)
  show ?thesis
    using synthesize_total [of "''I found some interesting things''" json_loads "''2025-01-01''" "''ai''"]
      none synthesize_no_match [OF none, of json_loads "''ai''" "''2025-01-01''"] ne
    by auto
qed

text \<open>
  C1 as stated fails: a structured answer with empty lists is accepted as it is, and the
  result has neither a key finding nor a source.
\<close>

theorem synthesize_nonempty_counterexample:
  \<open>\<not> (key_findings (synthesize json_loads
          ''{"query": "q", "summary": "s", "key_findings": [], "sources": []}'' ''q'' ''2025-01-01'') \<noteq> []
      \<and> sources (synthesize json_loads
          ''{"query": "q", "summary": "s", "key_findings": [], "sources": []}'' ''q'' ''2025-01-01'') \<noteq> [])\<close>
  by code_simp



text \<open>
  C6, as amended. There are exactly two degraded forms, and both have the text as
  \<open>summary\<close> and the query argument as \<open>query\<close>. When the text has no brace-delimited
  region (no \<open>{\<close> with a \<open>}\<close> after it), the result has the three generic key findings
  and the two generic sources. When there is a region and decoding it or constructing
  the findings from it raises, the result has the first two key findings and the
  single source \<open>Agent analysis\<close>. In the remaining case the result is what the
  constructor built. The generic entries are spelled as the code spells them.
\<close>

theorem degraded_ladder:
  "(re_search raw = None \<longleftrightarrow> (\<nexists>pre mid post. raw = pre @ CHR ''{'' # mid @ CHR ''}'' # post)) \<and>
   (re_search raw = None \<longrightarrow>
      synthesize loads raw q now =
        \<lparr>query = q, summary = raw,
         key_findings = [''Research completed using available tools'',
                         ''Multiple sources were consulted'',
                         ''Findings synthesized from web search and content analysis''],
         sources = [''Web search results'', ''Content analysis''], timestamp = now\<rparr>) \<and>
   (\<forall>m. re_search raw = Some m \<and>
        ((\<exists>e. loads m = Inl e) \<or> (\<exists>v e. loads m = Inr v \<and> construct_findings v now = Inl e)) \<longrightarrow>
      synthesize loads raw q now =
        \<lparr>query = q, summary = raw,
         key_findings = [''Research completed using available tools'',
                         ''Multiple sources were consulted''],
         sources = [''Agent analysis''], timestamp = now\<rparr>) \<and>
   (\<forall>m v f. re_search raw = Some m \<and> loads m = Inr v \<and> construct_findings v now = Inr f \<longrightarrow>
      synthesize loads raw q now = f)"
proof (intro conjI)
  show "re_search raw = None \<longleftrightarrow> (\<nexists>pre mid post. raw = pre @ CHR ''{'' # mid @ CHR ''}'' # post)"
    by (rule re_search_None_iff)
qed (auto simp: synthesize_def no_json_findings_def parse_failed_findings_def)

theorem degraded_ladder_witness:
  \<open>synthesize json_loads ''I found some interesting things but here is no JSON'' ''ai'' ''2025-01-01'' =
     \<lparr>query = ''ai'', summary = ''I found some interesting things but here is no JSON'',
      key_findings = [''Research completed using available tools'',
                      ''Multiple sources were consulted'',
                      ''Findings synthesized from web search and content analysis''],
      sources = [''Web search results'', ''Content analysis''], timestamp = ''2025-01-01''\<rparr> \<and>
   synthesize json_loads ''I used {tools} here'' ''ai'' ''2025-01-01'' =
     \<lparr>query = ''ai'', summary = ''I used {tools} here'',
      key_findings = [''Research completed using available tools'',
                      ''Multiple sources were consulted''],
      sources = [''Agent analysis''], timestamp = ''2025-01-01''\<rparr> \<and>
   synthesize json_loads ''{"query": 5}'' ''ai'' ''2025-01-01'' =
     \<lparr>query = ''ai'', summary = ''{"query": 5}'',
      key_findings = [''Research completed using available tools'',
                      ''Multiple sources were consulted''],
      sources = [''Agent analysis''], timestamp = ''2025-01-01''\<rparr> \<and>
   synthesize json_loads
      ''Here: {"query": "q", "summary": "s", "key_findings": ["k"], "sources": ["u"]}'' ''ai'' ''2025-01-01'' =
     \<lparr>query = ''q'', summary = ''s'', key_findings = [''k''], sources = [''u''],
      timestamp = ''2025-01-01''\<rparr>\<close>
proof -
  let ?obj = \<open>''{"query": "q", "summary": "s", "key_findings": ["k"], "sources": ["u"]}''\<close>
  let ?kw = "[(''query'', JString ''q''), (''summary'', JString ''s''),
              (''key_findings'', JArray [JString ''k'']), (''sources'', JArray [JString ''u''])]"
  have d1: "re_search (''Here: '' @ ?obj) = Some ?obj" by code_simp
  have d2: "json_loads ?obj = Inr (JObject ?kw)" by code_simp
  have d3: "construct_findings (JObject ?kw) ''2025-01-01'' =
      Inr \<lparr>query = ''q'', summary = ''s'', key_findings = [''k''], sources = [''u''],
           timestamp = ''2025-01-01''\<rparr>"
    by (simp add: construct_findings_def ResearchFindings_init_def required_def)
  have d: "synthesize json_loads (''Here: '' @ ?obj) ''ai'' ''2025-01-01'' =
      \<lparr>query = ''q'', summary = ''s'', key_findings = [''k''], sources = [''u''],
       timestamp = ''2025-01-01''\<rparr>"
    using degraded_ladder [of "''Here: '' @ ?obj" json_loads "''ai''" "''2025-01-01''"] d1 d2 d3
    by blast
  have a: "re_search ''I found some interesting things but here is no JSON'' = None" by code_simp
  have b1: "re_search ''I used {tools} here'' = Some ''{tools}''" by code_simp
  have b2: "json_loads ''{tools}'' =
      Inl (Raised ''JSONDecodeError'' ''Expecting property name enclosed in double quotes'')"
    by code_simp
  have c1: \<open>re_search ''{"query": 5}'' = Some ''{"query": 5}''\<close> by code_simp
  have c2: \<open>json_loads ''{"query": 5}'' = Inr (JObject [(''query'', JInt 5)])\<close> by code_simp
  have c3: "construct_findings (JObject [(''query'', JInt 5)]) ''2025-01-01'' = Inl validation_error"
    by (simp add: construct_findings_def ResearchFindings_init_def required_def)
  have \<open>synthesize json_loads ''I found some interesting things but here is no JSON'' ''ai'' ''2025-01-01'' =
     \<lparr>query = ''ai'', summary = ''I found some interesting things but here is no JSON'',
      key_findings = [''Research completed using available tools'',
                      ''Multiple sources were consulted'',
                      ''Findings synthesized from web search and content analysis''],
      sources = [''Web search results'', ''Content analysis''], timestamp = ''2025-01-01''\<rparr> \<and>
   synthesize json_loads ''I used {tools} here'' ''ai'' ''2025-01-01'' =
     \<lparr>query = ''ai'', summary = ''I used {tools} here'',
      key_findings = [''Research completed using available tools'',
                      ''Multiple sources were consulted''],
      sources = [''Agent analysis''], timestamp = ''2025-01-01''\<rparr> \<and>
   synthesize json_loads ''{"query": 5}'' ''ai'' ''2025-01-01'' =
     \<lparr>query = ''ai'', summary = ''{"query": 5}'',
      key_findings = [''Research completed using available tools'',
                      ''Multiple sources were consulted''],
      sources = [''Agent analysis''], timestamp = ''2025-01-01''\<rparr>\<close>
    using degraded_ladder [of "''I found some interesting things but here is no JSON''" json_loads "''ai''" "''2025-01-01''"]
      degraded_ladder [of "''I used {tools} here''" json_loads "''ai''" "''2025-01-01''"]
      degraded_ladder [of \<open>''{"query": 5}''\<close> json_loads "''ai''" "''2025-01-01''"]
      a b1 b2 c1 c2 c3
    by blast
  then show ?thesis using d by simp
qed

text \<open>
  C6 as stated names the single source \<open>agent analysis\<close>; the code's entry is
  \<open>Agent analysis\<close>.
\<close>

theorem degraded_source_counterexample:
  "\<not> (sources (synthesize json_loads ''I used {tools} here'' ''ai'' ''2025-01-01'') = [''agent analysis''])"
  by code_simp

text \<open>
  C9. On both degraded paths the \<open>query\<close> of the result is the query argument. On the
  structured path it is the \<open>query\<close> field of the decoded object, and the argument
  is not consulted: asked about \<open>cats\<close>, an answer whose object says \<open>dogs\<close> yields
  findings about \<open>dogs\<close>.
\<close>

theorem query_from_object:
  \<open>((synthesize loads raw q now = no_json_findings raw q now \<or>
     synthesize loads raw q now = parse_failed_findings raw q now) \<and>
    query (synthesize loads raw q now) = q
    \<or> (\<exists>m kw. re_search raw = Some m \<and> loads m = Inr (JObject kw) \<and>
          ResearchFindings_init kw now = Inr (synthesize loads raw q now) \<and>
          map_of kw ''query'' = Some (JString (query (synthesize loads raw q now))))) \<and>
   query (synthesize json_loads
            ''{"query": "dogs", "summary": "s", "key_findings": ["k"], "sources": ["u"]}''
            ''cats'' now') = ''dogs'' \<and> ''dogs'' \<noteq> ''cats''\<close>
proof -
  have gen: "(synthesize loads raw q now = no_json_findings raw q now \<or>
     synthesize loads raw q now = parse_failed_findings raw q now) \<and>
    query (synthesize loads raw q now) = q
    \<or> (\<exists>m kw. re_search raw = Some m \<and> loads m = Inr (JObject kw) \<and>
          ResearchFindings_init kw now = Inr (synthesize loads raw q now) \<and>
          map_of kw ''query'' = Some (JString (query (synthesize loads raw q now))))"
  proof (cases rule: synthesize_cases [of raw loads q now])
    case no_match
    then show ?thesis by (simp add: no_json_findings_def)
  next
    case (fault m)
    then show ?thesis by (simp add: parse_failed_findings_def)
  next
    case (structured m kw)
    then show ?thesis
      using ResearchFindings_init_Inr [OF structured(3)] required_str_Some by blast
  qed
  let ?mid = \<open>''"query": "dogs", "summary": "s", "key_findings": ["k"], "sources": ["u"]''\<close>
  let ?kw = "[(''query'', JString ''dogs''), (''summary'', JString ''s''),
              (''key_findings'', JArray [JString ''k'']), (''sources'', JArray [JString ''u''])]"
  have d: "json_loads (CHR ''{'' # ?mid @ ''}'') = Inr (JObject ?kw)" by code_simp
  have m: "re_search (CHR ''{'' # ?mid @ ''}'') = Some (CHR ''{'' # ?mid @ ''}'')"
    using re_search_first_last [of "[]" "[]" ?mid] by simp
  have c: "construct_findings (JObject ?kw) now' =
        Inr \<lparr>query = ''dogs'', summary = ''s'', key_findings = [''k''], sources = [''u''], timestamp = now'\<rparr>"
    by (simp add: construct_findings_def ResearchFindings_init_def required_def)
  have "synthesize json_loads (CHR ''{'' # ?mid @ ''}'') ''cats'' now' =
        \<lparr>query = ''dogs'', summary = ''s'', key_findings = [''k''], sources = [''u''], timestamp = now'\<rparr>"
    using m d c by (simp add: synthesize_def)
  then have "query (synthesize json_loads (CHR ''{'' # ?mid @ ''}'') ''cats'' now') = ''dogs''"
    by simp
  then show ?thesis using gen by simp
qed

theorem query_from_object_witness:
  \<open>query (synthesize json_loads ''no braces'' ''cats'' ''2025-01-01'') = ''cats'' \<and>
   query (synthesize json_loads
            ''{"query": "dogs", "summary": "s", "key_findings": ["k"], "sources": ["u"]}''
            ''cats'' ''2025-01-01'') = ''dogs''\<close>
proof -
  have none: "re_search ''no braces'' = None" by code_simp
  show ?thesis
    using query_from_object [of json_loads "''no braces''" "''cats''" "''2025-01-01''" "''2025-01-01''"] none
    by auto
qed

text \<open>
  C10. Two runs of the synthesis step on the same text and the same query, at any two
  clock readings, agree on \<open>query\<close>, \<open>summary\<close>, \<open>key_findings\<close> and \<open>sources\<close>.
\<close>

theorem synthesize_deterministic:
  "query (synthesize loads raw q t1) = query (synthesize loads raw q t2) \<and>
   summary (synthesize loads raw q t1) = summary (synthesize loads raw q t2) \<and>
   key_findings (synthesize loads raw q t1) = key_findings (synthesize loads raw q t2) \<and>
   sources (synthesize loads raw q t1) = sources (synthesize loads raw q t2)"
  using synthesize_clock [of loads raw q t1 t2] by (simp add: content_def)

theorem synthesize_deterministic_witness:
  \<open>key_findings (synthesize json_loads ''{"query": "q"}'' ''q'' ''2025-01-01T10:00:00'') =
   key_findings (synthesize json_loads ''{"query": "q"}'' ''q'' ''2025-01-02T11:30:00'') \<and>
   timestamp (synthesize json_loads ''{"query": "q"}'' ''q'' ''2025-01-01T10:00:00'') \<noteq>
   timestamp (synthesize json_loads ''{"query": "q"}'' ''q'' ''2025-01-02T11:30:00'')\<close>
proof -
  have \<open>timestamp (synthesize json_loads ''{"query": "q"}'' ''q'' ''2025-01-01T10:00:00'') \<noteq>
        timestamp (synthesize json_loads ''{"query": "q"}'' ''q'' ''2025-01-02T11:30:00'')\<close>
    by code_simp
  then show ?thesis
    using synthesize_deterministic [of json_loads \<open>''{"query": "q"}''\<close> "''q''"
        "''2025-01-01T10:00:00''" "''2025-01-02T11:30:00''"]
    by simp
qed

section \<open>Claims about research\<close>





section \<open>Claims about search\<close>

lemma Context7Search_search_unconfigured:
  "unconfigured (api_key w) \<Longrightarrow> Context7Search_search w q n = (JArray [], [])"
  by (cases "api_key w") (simp_all add: Context7Search_search_def)

lemma Context7Search_search_calls:
  "snd (Context7Search_search w q n) =
     (case api_key w of
        None \<Rightarrow> []
      | Some k \<Rightarrow> if unconfigured (Some k) then [] else [PostSearch k q n])"
  by (simp add: Context7Search_search_def split: option.splits)

lemma Context7Search_search_no_get: "GetSearch q' \<notin> set (snd (Context7Search_search w q n))"
  by (simp add: Context7Search_search_calls split: option.splits)



lemma fallback_search_calls: "snd (fallback_search w q n) = [GetSearch q]"
  by (simp add: fallback_search_def)




lemma search_web_primary:
  "truthy (fst (Context7Search_search w q n)) \<Longrightarrow>
   search_web w q n =
     (results_of w q (fst (Context7Search_search w q n)), snd (Context7Search_search w q n))"
proof -
  assume t: "truthy (fst (Context7Search_search w q n))"
  obtain p c where pc: "Context7Search_search w q n = (p, c)" by (cases "Context7Search_search w q n")
  show ?thesis using t by (simp add: search_web_def results_of_def pc)
qed

lemma search_web_fallback:
  "\<not> truthy (fst (Context7Search_search w q n)) \<Longrightarrow>
   search_web w q n =
     (results_of w q (fst (fallback_search w q n)),
      snd (Context7Search_search w q n) @ [GetSearch q])"
proof -
  assume t: "\<not> truthy (fst (Context7Search_search w q n))"
  obtain p c where pc: "Context7Search_search w q n = (p, c)" by (cases "Context7Search_search w q n")
  obtain s m where sm: "fallback_search w q n = (s, m)" by (cases "fallback_search w q n")
  have m: "m = [GetSearch q]" using fallback_search_calls [of w q n] sm by simp
  show ?thesis using t by (simp add: search_web_def results_of_def pc sm m)
qed



text \<open>
  C3, as amended. The request of the secondary provider is made exactly when the value
  that the primary provider's search returns is falsy. An unconfigured primary (no
  credential, an empty one, or one that starts with \<open>dummy\<close>) returns the empty
  list without any request, so the secondary's request is then the only one made. When
  the primary returns a list, the secondary is called exactly when that list is empty;
  in particular a non-empty list from the primary leaves the secondary uncalled. The
  other falsy values come from a reply whose \<open>results\<close> field is \<open>null\<close>, \<open>false\<close>,
  zero, an empty string or an empty object.
\<close>

theorem fallback_condition:
  "((GetSearch q \<in> set (snd (search_web w q n))) = (\<not> truthy (fst (Context7Search_search w q n)))) \<and>
   (unconfigured (api_key w) \<longrightarrow>
      Context7Search_search w q n = (JArray [], []) \<and> snd (search_web w q n) = [GetSearch q]) \<and>
   (\<forall>k. api_key w = Some k \<and> \<not> unconfigured (Some k) \<longrightarrow>
      snd (Context7Search_search w q n) = [PostSearch k q n]) \<and>
   (\<forall>v. fst (Context7Search_search w q n) = JArray v \<longrightarrow>
      (GetSearch q \<in> set (snd (search_web w q n))) = (v = [])) \<and>
   (\<forall>x xs. fst (Context7Search_search w q n) = JArray (x # xs) \<longrightarrow>
      snd (search_web w q n) = snd (Context7Search_search w q n) \<and>
      GetSearch q \<notin> set (snd (search_web w q n)))"
proof (intro conjI)
  show inv: "(GetSearch q \<in> set (snd (search_web w q n))) = (\<not> truthy (fst (Context7Search_search w q n)))"
    by (cases "truthy (fst (Context7Search_search w q n))")
       (simp_all add: search_web_primary search_web_fallback Context7Search_search_no_get)
  show "unconfigured (api_key w) \<longrightarrow>
      Context7Search_search w q n = (JArray [], []) \<and> snd (search_web w q n) = [GetSearch q]"
    by (auto simp: Context7Search_search_unconfigured search_web_fallback)
  show "\<forall>k. api_key w = Some k \<and> \<not> unconfigured (Some k) \<longrightarrow>
      snd (Context7Search_search w q n) = [PostSearch k q n]"
    by (simp add: Context7Search_search_calls)
  show "\<forall>v. fst (Context7Search_search w q n) = JArray v \<longrightarrow>
      (GetSearch q \<in> set (snd (search_web w q n))) = (v = [])"
    using inv by simp
  show "\<forall>x xs. fst (Context7Search_search w q n) = JArray (x # xs) \<longrightarrow>
      snd (search_web w q n) = snd (Context7Search_search w q n) \<and>
      GetSearch q \<notin> set (snd (search_web w q n))"
    by (simp add: search_web_primary Context7Search_search_no_get)
qed


theorem fallback_condition_witness:
  "search_web (offline None) ''rust'' 5 = ([no_results ''rust''], [GetSearch ''rust'']) \<and>
   snd (search_web (served (Some ''secret'') 200
          (JObject [(''results'', JArray [JObject [(''title'', JString ''Ownership'')]])]) []) ''rust'' 5)
     = [PostSearch ''secret'' ''rust'' 5]"
proof -
  let ?w = "served (Some ''secret'') 200
          (JObject [(''results'', JArray [JObject [(''title'', JString ''Ownership'')]])]) []"
  have a: "unconfigured (api_key (offline None))" by (simp add: offline_def unconfigured_def)
  have a': "fst (search_web (offline None) ''rust'' 5) = [no_results ''rust'']" by code_simp
  have b: "fst (Context7Search_search ?w ''rust'' 5) = JArray [JObject [(''title'', JString ''Ownership'')]]"
    by code_simp
  have c: "snd (Context7Search_search ?w ''rust'' 5) = [PostSearch ''secret'' ''rust'' 5]" by code_simp
  show ?thesis
    using fallback_condition [of "''rust''" "offline None" 5] fallback_condition [of "''rust''" ?w 5] a a' b c
    by (simp add: prod_eq_iff)
qed

text \<open>
  C3 as stated fails: a configured primary that answers 200 with \<open>results\<close> set to
  \<open>null\<close> returns \<open>None\<close>, which is no empty sequence, and the secondary is called.
\<close>

theorem fallback_on_null_counterexample:
  "\<not> ((GetSearch ''rust'' \<in> set (snd (search_web
            (served (Some ''secret'') 200 (JObject [(''results'', JNull)]) []) ''rust'' 5))) =
       (unconfigured (api_key (served (Some ''secret'') 200 (JObject [(''results'', JNull)]) [])) \<or>
        fst (Context7Search_search
               (served (Some ''secret'') 200 (JObject [(''results'', JNull)]) []) ''rust'' 5) = JArray []))"
  by code_simp

section \<open>Claims about fetch\<close>

lemma contains_prefix: "contains n (n @ b)"
proof (cases "n @ b")
  case Nil
  then show ?thesis by simp
next
  case (Cons c cs)
  have "take (length n) (c # cs) = n" by (simp add: Cons [symmetric])
  then show ?thesis unfolding Cons by simp
qed

lemma contains_Cons: "contains n s \<Longrightarrow> contains n (c # s)"
  by simp

lemma contains_append: "contains n (a @ n @ b)"
  by (induction a) (simp_all add: contains_prefix del: contains.simps add: contains_Cons)

lemma fetch_content_unconfigured:
  "unconfigured (api_key w) \<Longrightarrow>
   Context7Search_fetch_content w u =
     (JString (''Content from '' @ u @ '' (Context7 API key required for real data)''), [])"
  by (cases "api_key w") (simp_all add: Context7Search_fetch_content_def)

lemma fetch_content_calls:
  "api_key w = Some k \<Longrightarrow> \<not> unconfigured (Some k) \<Longrightarrow>
   snd (Context7Search_fetch_content w u) = [PostFetch k u]"
  by (simp add: Context7Search_fetch_content_def)

lemma fallback_fetch_calls: "snd (fallback_fetch w u) = [GetPage u]"
  by (simp add: fallback_fetch_def)

lemma placeholder_found:
  "str_in ''Context7 API key required''
     (JString (''Content from '' @ u @ '' (Context7 API key required for real data)'')) = Inr True"
proof -
  have "contains ''Context7 API key required''
          ((''Content from '' @ u @ '' ('') @ ''Context7 API key required'' @ '' for real data)'')"
    by (rule contains_append)
  then show ?thesis by (simp add: str_in_def)
qed

lemma fetch_uses_fallback:
  assumes "\<not> truthy (fst (Context7Search_fetch_content w u)) \<or>
           str_in ''Context7 API key required'' (fst (Context7Search_fetch_content w u)) = Inr True"
  shows "fetch_webpage_content w u =
           (JString (fst (fallback_fetch w u)), snd (Context7Search_fetch_content w u) @ [GetPage u])"
proof -
  obtain c cs where c: "Context7Search_fetch_content w u = (c, cs)"
    by (cases "Context7Search_fetch_content w u")
  obtain p m where p: "fallback_fetch w u = (p, m)" by (cases "fallback_fetch w u")
  have m: "m = [GetPage u]" using fallback_fetch_calls [of w u] p by simp
  show ?thesis using assms by (auto simp: fetch_webpage_content_def c p m)
qed

lemma fetch_keeps_primary:
  assumes "truthy (fst (Context7Search_fetch_content w u))"
    and "str_in ''Context7 API key required'' (fst (Context7Search_fetch_content w u)) = Inr False"
  shows "fetch_webpage_content w u = Context7Search_fetch_content w u"
proof -
  obtain c cs where c: "Context7Search_fetch_content w u = (c, cs)"
    by (cases "Context7Search_fetch_content w u")
  show ?thesis using assms by (simp add: fetch_webpage_content_def c)
qed

lemma fetch_type_error:
  assumes "truthy (fst (Context7Search_fetch_content w u))"
    and "str_in ''Context7 API key required'' (fst (Context7Search_fetch_content w u)) = Inl e"
  shows "fst (fetch_webpage_content w u) = JString (''Error fetching '' @ u @ '': '' @ exc_str e)"
proof -
  obtain c cs where c: "Context7Search_fetch_content w u = (c, cs)"
    by (cases "Context7Search_fetch_content w u")
  show ?thesis using assms by (simp add: fetch_webpage_content_def c error_fetching_def)
qed

lemma str_in_string: "\<exists>b. str_in n (JString s) = Inr b"
  by (simp add: str_in_def)

text \<open>
  C4, as amended. In every world and for every URL \<open>fetch_webpage_content\<close> returns: it
  has no exceptional outcome. When the primary's content is falsy or contains the
  placeholder text, which is the case whenever the primary is unconfigured, the result
  is the secondary provider's output, a string that may be empty. When the primary's
  content is truthy and free of the placeholder, it is returned as it is. An exception
  raised by the request of either tier, or by the test for the placeholder, becomes the
  text \<open>Error fetching\<close>, the URL, a colon and the text of the exception; for the
  primary's request this text is the result unless it contains the placeholder itself.
  A status of the primary other than 200 becomes \<open>Failed to fetch\<close> and the URL.
  The result is a string whenever the primary's content is one.
\<close>

theorem fetch_outcomes:
  "(\<not> truthy (fst (Context7Search_fetch_content w u)) \<or>
    str_in ''Context7 API key required'' (fst (Context7Search_fetch_content w u)) = Inr True \<longrightarrow>
      fetch_webpage_content w u =
        (JString (fst (fallback_fetch w u)), snd (Context7Search_fetch_content w u) @ [GetPage u])) \<and>
   (unconfigured (api_key w) \<longrightarrow>
      fetch_webpage_content w u = (JString (fst (fallback_fetch w u)), [GetPage u])) \<and>
   (truthy (fst (Context7Search_fetch_content w u)) \<and>
    str_in ''Context7 API key required'' (fst (Context7Search_fetch_content w u)) = Inr False \<longrightarrow>
      fetch_webpage_content w u = Context7Search_fetch_content w u) \<and>
   (\<forall>k e. api_key w = Some k \<and> \<not> unconfigured (Some k) \<and> http w (PostFetch k u) = Inl e \<longrightarrow>
      fst (Context7Search_fetch_content w u) = JString (''Error fetching '' @ u @ '': '' @ exc_str e)) \<and>
   (\<forall>k e. api_key w = Some k \<and> \<not> unconfigured (Some k) \<and> http w (PostFetch k u) = Inl e \<and>
      \<not> contains ''Context7 API key required'' (''Error fetching '' @ u @ '': '' @ exc_str e) \<longrightarrow>
      fst (fetch_webpage_content w u) = JString (''Error fetching '' @ u @ '': '' @ exc_str e)) \<and>
   (\<forall>k r. api_key w = Some k \<and> \<not> unconfigured (Some k) \<and> http w (PostFetch k u) = Inr r \<and>
      status_code r \<noteq> 200 \<longrightarrow>
      fst (Context7Search_fetch_content w u) = JString (''Failed to fetch '' @ u)) \<and>
   (\<forall>e. http w (GetPage u) = Inl e \<longrightarrow>
      fst (fallback_fetch w u) = ''Error fetching '' @ u @ '': '' @ exc_str e) \<and>
   (\<forall>e. truthy (fst (Context7Search_fetch_content w u)) \<and>
        str_in ''Context7 API key required'' (fst (Context7Search_fetch_content w u)) = Inl e \<longrightarrow>
      fst (fetch_webpage_content w u) = JString (''Error fetching '' @ u @ '': '' @ exc_str e)) \<and>
   ((\<exists>s. fst (Context7Search_fetch_content w u) = JString s) \<longrightarrow>
      (\<exists>t. fst (fetch_webpage_content w u) = JString t))"
proof (intro conjI)
  show "\<not> truthy (fst (Context7Search_fetch_content w u)) \<or>
    str_in ''Context7 API key required'' (fst (Context7Search_fetch_content w u)) = Inr True \<longrightarrow>
      fetch_webpage_content w u =
        (JString (fst (fallback_fetch w u)), snd (Context7Search_fetch_content w u) @ [GetPage u])"
    using fetch_uses_fallback by blast
  show "unconfigured (api_key w) \<longrightarrow>
      fetch_webpage_content w u = (JString (fst (fallback_fetch w u)), [GetPage u])"
  proof
    assume un: "unconfigured (api_key w)"
    have c: "Context7Search_fetch_content w u =
        (JString (''Content from '' @ u @ '' (Context7 API key required for real data)''), [])"
      using un by (rule fetch_content_unconfigured)
    have "str_in ''Context7 API key required'' (fst (Context7Search_fetch_content w u)) = Inr True"
      unfolding c fst_conv by (rule placeholder_found)
    then have "fetch_webpage_content w u =
        (JString (fst (fallback_fetch w u)), snd (Context7Search_fetch_content w u) @ [GetPage u])"
      using fetch_uses_fallback [of w u] by blast
    then show "fetch_webpage_content w u = (JString (fst (fallback_fetch w u)), [GetPage u])"
      unfolding c by simp
  qed
  show "truthy (fst (Context7Search_fetch_content w u)) \<and>
    str_in ''Context7 API key required'' (fst (Context7Search_fetch_content w u)) = Inr False \<longrightarrow>
      fetch_webpage_content w u = Context7Search_fetch_content w u"
    using fetch_keeps_primary by blast
  show "\<forall>k e. api_key w = Some k \<and> \<not> unconfigured (Some k) \<and> http w (PostFetch k u) = Inl e \<longrightarrow>
      fst (Context7Search_fetch_content w u) = JString (''Error fetching '' @ u @ '': '' @ exc_str e)"
    by (simp add: Context7Search_fetch_content_def error_fetching_def)
  show "\<forall>k e. api_key w = Some k \<and> \<not> unconfigured (Some k) \<and> http w (PostFetch k u) = Inl e \<and>
      \<not> contains ''Context7 API key required'' (''Error fetching '' @ u @ '': '' @ exc_str e) \<longrightarrow>
      fst (fetch_webpage_content w u) = JString (''Error fetching '' @ u @ '': '' @ exc_str e)"
  proof (intro allI impI)
    fix k e
    assume a: "api_key w = Some k \<and> \<not> unconfigured (Some k) \<and> http w (PostFetch k u) = Inl e \<and>
      \<not> contains ''Context7 API key required'' (''Error fetching '' @ u @ '': '' @ exc_str e)"
    then have c: "fst (Context7Search_fetch_content w u) =
        JString (''Error fetching '' @ u @ '': '' @ exc_str e)"
      by (simp add: Context7Search_fetch_content_def error_fetching_def)
    have "truthy (fst (Context7Search_fetch_content w u))" unfolding c by simp
    moreover have "str_in ''Context7 API key required'' (fst (Context7Search_fetch_content w u)) = Inr False"
      unfolding c using a by (simp add: str_in_def)
    ultimately have "fetch_webpage_content w u = Context7Search_fetch_content w u"
      by (rule fetch_keeps_primary)
    then show "fst (fetch_webpage_content w u) = JString (''Error fetching '' @ u @ '': '' @ exc_str e)"
      using c by simp
  qed
  show "\<forall>k r. api_key w = Some k \<and> \<not> unconfigured (Some k) \<and> http w (PostFetch k u) = Inr r \<and>
      status_code r \<noteq> 200 \<longrightarrow>
      fst (Context7Search_fetch_content w u) = JString (''Failed to fetch '' @ u)"
    by (simp add: Context7Search_fetch_content_def)
  show "\<forall>e. http w (GetPage u) = Inl e \<longrightarrow>
      fst (fallback_fetch w u) = ''Error fetching '' @ u @ '': '' @ exc_str e"
    by (simp add: fallback_fetch_def error_fetching_def)
  show "\<forall>e. truthy (fst (Context7Search_fetch_content w u)) \<and>
        str_in ''Context7 API key required'' (fst (Context7Search_fetch_content w u)) = Inl e \<longrightarrow>
      fst (fetch_webpage_content w u) = JString (''Error fetching '' @ u @ '': '' @ exc_str e)"
    using fetch_type_error by blast
  show "(\<exists>s. fst (Context7Search_fetch_content w u) = JString s) \<longrightarrow>
      (\<exists>t. fst (fetch_webpage_content w u) = JString t)"
  proof
    assume "\<exists>s. fst (Context7Search_fetch_content w u) = JString s"
    then obtain s where s: "fst (Context7Search_fetch_content w u) = JString s" by blast
    obtain b where b: "str_in ''Context7 API key required'' (JString s) = Inr b"
      using str_in_string by blast
    show "\<exists>t. fst (fetch_webpage_content w u) = JString t"
    proof (cases "truthy (JString s) \<and> \<not> b")
      case True
      then show ?thesis using fetch_keeps_primary [of w u] s b by simp
    next
      case False
      then have "\<not> truthy (fst (Context7Search_fetch_content w u)) \<or>
           str_in ''Context7 API key required'' (fst (Context7Search_fetch_content w u)) = Inr True"
        using s b by auto
      then show ?thesis using fetch_uses_fallback [of w u] by simp
    qed
  qed
qed

theorem fetch_outcomes_witness:
  "fetch_webpage_content (offline None) ''http://example.com/a'' =
     (JString ''Error fetching http://example.com/a: All connection attempts failed'',
      [GetPage ''http://example.com/a'']) \<and>
   fst (fetch_webpage_content (offline (Some ''secret'')) ''http://example.com/a'') =
     JString ''Error fetching http://example.com/a: All connection attempts failed'' \<and>
   fetch_webpage_content (served (Some ''secret'') 404 JNull []) ''http://example.com/a'' =
     (JString ''Failed to fetch http://example.com/a'', [PostFetch ''secret'' ''http://example.com/a'']) \<and>
   fst (fetch_webpage_content (served (Some ''secret'') 200 (JObject [(''content'', JInt 7)]) [])
          ''http://example.com/a'') =
     JString (''Error fetching http://example.com/a: argument of type '' @ quoted ''int'' @
              '' is not iterable'')"
proof -
  let ?u = "''http://example.com/a''"
  have a: "unconfigured (api_key (offline None))" by (simp add: offline_def unconfigured_def)
  have g: "http (offline None) (GetPage ?u) =
             Inl (Raised ''ConnectError'' ''All connection attempts failed'')"
    by (simp add: offline_def)
  have k: "api_key (offline (Some ''secret'')) = Some ''secret''" by (simp add: offline_def)
  have u: "\<not> unconfigured (Some ''secret'')" by (simp add: unconfigured_def)
  have p: "http (offline (Some ''secret'')) (PostFetch ''secret'' ?u) =
             Inl (Raised ''ConnectError'' ''All connection attempts failed'')"
    by (simp add: offline_def)
  have n: "\<not> contains ''Context7 API key required''
             ''Error fetching http://example.com/a: All connection attempts failed''"
    by code_simp
  have first: "fetch_webpage_content (offline None) ?u =
     (JString ''Error fetching http://example.com/a: All connection attempts failed'', [GetPage ?u])"
    using fetch_outcomes [of "offline None" ?u] a g by simp
  have second: "fst (fetch_webpage_content (offline (Some ''secret'')) ?u) =
     JString ''Error fetching http://example.com/a: All connection attempts failed''"
    using fetch_outcomes [of "offline (Some ''secret'')" ?u] k u p n by simp
  let ?w = "served (Some ''secret'') 404 JNull []"
  have k3: "api_key ?w = Some ''secret''" by (simp add: served_def)
  have p3: "http ?w (PostFetch ''secret'' ?u) =
              Inr \<lparr>status_code = 404, json_body = Inr JNull, body_text = []\<rparr>"
    by (simp add: served_def)
  have c3: "fst (Context7Search_fetch_content ?w ?u) = JString ''Failed to fetch http://example.com/a''"
    using fetch_outcomes [of ?w ?u] k3 u p3 by simp
  have s3: "snd (Context7Search_fetch_content ?w ?u) = [PostFetch ''secret'' ?u]"
    using k3 u by (rule fetch_content_calls)
  have n3: "str_in ''Context7 API key required'' (JString ''Failed to fetch http://example.com/a'') = Inr False"
    by code_simp
  have third: "fetch_webpage_content ?w ?u =
     (JString ''Failed to fetch http://example.com/a'', [PostFetch ''secret'' ?u])"
    using fetch_outcomes [of ?w ?u] c3 s3 n3 by (simp add: prod_eq_iff)
  let ?v = "served (Some ''secret'') 200 (JObject [(''content'', JInt 7)]) []"
  have c4: "fst (Context7Search_fetch_content ?v ?u) = JInt 7" by code_simp
  have n4: "str_in ''Context7 API key required'' (JInt 7) =
      Inl (Raised ''TypeError'' (''argument of type '' @ quoted ''int'' @ '' is not iterable''))"
    by (simp add: str_in_def)
  have fourth: "fst (fetch_webpage_content ?v ?u) =
     JString (''Error fetching http://example.com/a: argument of type '' @ quoted ''int'' @
              '' is not iterable'')"
    using fetch_outcomes [of ?v ?u] c4 n4 by simp
  show ?thesis using first second third fourth by blast
qed

text \<open>
  C4 as stated fails: with the primary unconfigured and a page that has no text, the
  result is the empty string.
\<close>

theorem fetch_empty_counterexample:
  "fst (fetch_webpage_content (served None 200 JNull []) ''http://example.com/a'') = JString []"
  by code_simp

section \<open>The page text of the secondary provider\<close>

lemma all_strings_decompose:
  "\<not> tag_named names n \<Longrightarrow> all_strings (decompose_all names n) = visible_strings names n"
proof (induction n)
  case (Tag name attrs cs)
  have "map (\<lambda>x. all_strings (decompose_all names x)) (filter (\<lambda>c. \<not> tag_named names c) cs)
        = map (visible_strings names) (filter (\<lambda>c. \<not> tag_named names c) cs)"
    using Tag.IH by (intro map_cong) auto
  moreover have "concat (map (visible_strings names) (filter (\<lambda>c. \<not> tag_named names c) cs))
        = concat (map (visible_strings names) cs)"
  proof (induction cs)
    case Nil then show ?case by simp
  next
    case (Cons c cs)
    then show ?case by (cases c) auto
  qed
  ultimately show ?case using Tag.prems by (simp add: comp_def del: map_eq_conv)
qed simp_all

lemma visible_hidden: "tag_named names n \<Longrightarrow> visible_strings names n = []"
  by (cases n) auto

lemma get_text_decompose_soup:
  "get_text (decompose_soup names roots) = concat (concat (map (visible_strings names) roots))"
proof (induction roots)
  case Nil
  then show ?case by (simp add: get_text_def decompose_soup_def)
next
  case (Cons r roots)
  then show ?case
    by (cases "tag_named names r")
       (simp_all add: get_text_def decompose_soup_def all_strings_decompose visible_hidden)
qed

lemma limit_length_long: "length t > 5000 \<Longrightarrow> limit_length t = take 5000 t @ ''...''"
  by (simp add: limit_length_def)

lemma limit_length_short: "length t \<le> 5000 \<Longrightarrow> limit_length t = t"
  by (simp add: limit_length_def)

subsection \<open>strip\<close>

lemma strip_sublist: "\<exists>a b. s = a @ strip s @ b"
proof -
  let ?d = "dropWhile py_isspace s"
  have 1: "s = takeWhile py_isspace s @ ?d" by simp
  have "rev ?d = takeWhile py_isspace (rev ?d) @ dropWhile py_isspace (rev ?d)" by simp
  then have "?d = rev (dropWhile py_isspace (rev ?d)) @ rev (takeWhile py_isspace (rev ?d))"
    by (metis rev_append rev_rev_ident)
  then have "?d = strip s @ rev (takeWhile py_isspace (rev ?d))" by (simp add: strip_def)
  with 1 have "s = takeWhile py_isspace s @ strip s @ rev (takeWhile py_isspace (rev ?d))" by metis
  then show ?thesis by blast
qed

lemma set_strip: "set (strip s) \<subseteq> set s"
  using strip_sublist [of s] by (metis Un_upper1 Un_upper2 set_append subset_trans)

lemma strip_last: "strip s \<noteq> [] \<Longrightarrow> \<not> py_isspace (last (strip s))"
proof -
  assume ne: "strip s \<noteq> []"
  let ?e = "dropWhile py_isspace (rev (dropWhile py_isspace s))"
  have e: "?e \<noteq> []" using ne by (simp add: strip_def)
  have "last (strip s) = hd ?e" using e by (simp add: strip_def last_rev)
  moreover have "\<not> py_isspace (hd ?e)" using e by (rule hd_dropWhile)
  ultimately show ?thesis by simp
qed

lemma strip_hd: "strip s \<noteq> [] \<Longrightarrow> \<not> py_isspace (hd (strip s))"
proof -
  assume ne: "strip s \<noteq> []"
  let ?d = "dropWhile py_isspace s"
  let ?e = "dropWhile py_isspace (rev ?d)"
  have e: "?e \<noteq> []" using ne by (simp add: strip_def)
  have d: "?d \<noteq> []"
  proof
    assume a: "?d = []"
    have "?e = []" unfolding a by simp
    with e show False by contradiction
  qed
  have "hd (strip s) = last ?e" using e by (simp add: strip_def hd_rev)
  also have "last ?e = last (rev ?d)"
  proof -
    have "rev ?d = takeWhile py_isspace (rev ?d) @ ?e" by simp
    then show ?thesis using e by (metis last_appendR)
  qed
  also have "\<dots> = hd ?d" using d by (simp add: last_rev)
  finally have "hd (strip s) = hd ?d" .
  moreover have "\<not> py_isspace (hd ?d)" using d by (rule hd_dropWhile)
  ultimately show ?thesis by simp
qed

lemma strip_no_two_blanks:
  assumes "\<nexists>xs ys. s = xs @ ''  '' @ ys"
  shows "\<nexists>xs ys. strip s = xs @ ''  '' @ ys"
proof
  assume "\<exists>xs ys. strip s = xs @ ''  '' @ ys"
  then obtain xs ys where x: "strip s = xs @ ''  '' @ ys" by blast
  obtain a b where "s = a @ strip s @ b" using strip_sublist by blast
  then have "s = (a @ xs) @ ''  '' @ (ys @ b)" using x by simp
  with assms show False by blast
qed

subsection \<open>split\<close>

lemma split_two_blanks_nonempty: "split_two_blanks s \<noteq> []"
  by (induction s rule: split_two_blanks.induct) (auto split: list.splits)

lemma split_first_piece:
  "split_two_blanks (b # r) = p # ps \<Longrightarrow> p = [] \<or> hd p = b"
  by (cases r) (auto split: if_splits list.splits)

lemma split_pieces_no_two_blanks:
  "p \<in> set (split_two_blanks s) \<Longrightarrow> \<nexists>xs ys. p = xs @ ''  '' @ ys"
proof (induction s arbitrary: p rule: split_two_blanks.induct)
  case (1 a b r)
  show ?case
  proof (cases "a = CHR '' '' \<and> b = CHR '' ''")
    case True
    then have "p = [] \<or> p \<in> set (split_two_blanks r)" using "1.prems" by auto
    then show ?thesis using "1.IH"(1) True by auto
  next
    case False
    obtain p0 ps where sp: "split_two_blanks (b # r) = p0 # ps"
      using split_two_blanks_nonempty [of "b # r"] by (cases "split_two_blanks (b # r)") auto
    then have "p = a # p0 \<or> p \<in> set ps" using "1.prems" False by auto
    then show ?thesis
    proof
      assume p: "p = a # p0"
      have ih: "\<nexists>xs ys. p0 = xs @ ''  '' @ ys" using "1.IH"(2) [OF False, of p0] sp by simp
      show ?thesis
      proof
        assume "\<exists>xs ys. p = xs @ ''  '' @ ys"
        then obtain xs ys where e0: "p = xs @ ''  '' @ ys" by blast
        have e: "a # p0 = xs @ ''  '' @ ys" using e0 p by simp
        show False
        proof (cases xs)
          case Nil
          then have "a = CHR '' ''" "p0 = CHR '' '' # ys" using e by auto
          moreover have "p0 = [] \<or> hd p0 = b" using split_first_piece [OF sp] .
          ultimately show False using False by auto
        next
          case (Cons x xs')
          then have "p0 = xs' @ ''  '' @ ys" using e by simp
          with ih show False by blast
        qed
      qed
    next
      assume "p \<in> set ps"
      then show ?thesis using "1.IH"(2) [OF False, of p] sp by simp
    qed
  qed
qed auto

lemma split_pieces_set: "p \<in> set (split_two_blanks s) \<Longrightarrow> set p \<subseteq> set s"
proof (induction s arbitrary: p rule: split_two_blanks.induct)
  case (1 a b r)
  show ?case
  proof (cases "a = CHR '' '' \<and> b = CHR '' ''")
    case True
    then have "p = [] \<or> p \<in> set (split_two_blanks r)" using "1.prems" by auto
    then show ?thesis using "1.IH"(1) True by auto
  next
    case False
    obtain p0 ps where sp: "split_two_blanks (b # r) = p0 # ps"
      using split_two_blanks_nonempty [of "b # r"] by (cases "split_two_blanks (b # r)") auto
    then have "p = a # p0 \<or> p \<in> set ps" using "1.prems" False by auto
    then show ?thesis using "1.IH"(2) [OF False] sp by fastforce
  qed
qed auto

subsection \<open>splitlines\<close>

lemma splitlines_from_no_break:
  "\<forall>x\<in>set cur. \<not> is_linebreak x \<Longrightarrow> l \<in> set (splitlines_from cur t) \<Longrightarrow> \<forall>x\<in>set l. \<not> is_linebreak x"
proof (induction cur t rule: splitlines_from.induct)
  case (1 cur)
  then show ?case by (cases "cur = []") auto
next
  case (2 cur c cs)
  show ?case
  proof (cases "is_linebreak c")
    case True
    let ?rest = "if c = CHR 0x0D \<and> cs \<noteq> [] \<and> hd cs = CHR 0x0A then tl cs else cs"
    have "splitlines_from cur (c # cs) = rev cur # splitlines_from [] ?rest"
      using True by simp
    then have "l = rev cur \<or> l \<in> set (splitlines_from [] ?rest)" using "2.prems"(2) by simp
    then show ?thesis
    proof
      assume "l = rev cur"
      then show ?thesis using "2.prems"(1) by simp
    next
      assume "l \<in> set (splitlines_from [] ?rest)"
      then show ?thesis using "2.IH"(1) [OF True] by simp
    qed
  next
    case False
    then have "l \<in> set (splitlines_from (c # cur) cs)" using "2.prems"(2) by simp
    moreover have "\<forall>x\<in>set (c # cur). \<not> is_linebreak x" using False "2.prems"(1) by simp
    ultimately show ?thesis using "2.IH"(2) [OF False] by blast
  qed
qed

lemma splitlines_no_break: "l \<in> set (splitlines t) \<Longrightarrow> \<forall>x\<in>set l. \<not> is_linebreak x"
  unfolding splitlines_def using splitlines_from_no_break [of "[]" l t] by simp

lemma clean_text_tidy:
  "\<exists>chunks. clean_text t = join nl chunks \<and> list_all tidy chunks"
proof -
  let ?chunks = "filter (\<lambda>chunk. chunk \<noteq> [])
       (concat (map (\<lambda>line. map strip (split_two_blanks line)) (map strip (splitlines t))))"
  have "tidy c" if c: "c \<in> set ?chunks" for c
  proof -
    from c obtain l p where l: "l \<in> set (splitlines t)" and p: "p \<in> set (split_two_blanks (strip l))"
      and cp: "c = strip p" and ne: "c \<noteq> []" by auto
    have nb: "\<forall>x\<in>set p. \<not> is_linebreak x"
      using splitlines_no_break [OF l] set_strip [of l] split_pieces_set [OF p] by blast
    have "\<forall>x\<in>set c. \<not> is_linebreak x" using nb set_strip [of p] cp by blast
    moreover have "\<nexists>xs ys. c = xs @ ''  '' @ ys"
      unfolding cp using split_pieces_no_two_blanks [OF p] by (rule strip_no_two_blanks)
    moreover have "\<not> py_isspace (hd c)" "\<not> py_isspace (last c)"
      using ne strip_hd [of p] strip_last [of p] cp by auto
    ultimately show ?thesis using ne by (simp add: tidy_def)
  qed
  then have "list_all tidy ?chunks" by (simp add: list_all_iff)
  moreover have "clean_text t = join nl ?chunks" by (simp add: clean_text_def)
  ultimately show ?thesis by blast
qed

section \<open>Claims about the page text\<close>

text \<open>
  C7, as amended. For a page that the secondary provider fetched, the text is taken from
  the parsed page outside its script and style elements, cleaned, and cut: a cleaned
  text of more than 5000 characters is returned as its first 5000 characters followed
  by three dots, a shorter one uncut. Cleaning joins chunks with single line feeds, and
  every chunk is non-empty, has no white space at either end, no two blanks in a row
  and no line boundary; so runs of line boundaries and of blanks are collapsed. Other
  white space inside a line, such as a run of tabs, stays as it is.
\<close>

theorem fallback_fetch_text:
  "(\<forall>r. http w (GetPage u) = Inr r \<longrightarrow>
      fst (fallback_fetch w u) =
        limit_length (clean_text (concat (concat
          (map (visible_strings [''script'', ''style'']) (html_parser w (body_text r))))))) \<and>
   (5000 < length t \<longrightarrow> limit_length t = take 5000 t @ ''...'') \<and>
   (length t \<le> 5000 \<longrightarrow> limit_length t = t) \<and>
   (\<exists>chunks. clean_text t = join nl chunks \<and> list_all tidy chunks)"
  by (simp add: fallback_fetch_def get_text_decompose_soup limit_length_long limit_length_short
        clean_text_tidy)

theorem fallback_fetch_text_witness:
  "limit_length (replicate 6000 (CHR ''x'')) = replicate 5000 (CHR ''x'') @ ''...'' \<and>
   fst (fallback_fetch
          (served None 200 JNull
             [Tag ''p'' [] [NavigableString ''Hello  world''],
              Tag ''script'' [] [NavigableString ''var x = 1;'']])
          ''http://example.com/a'') = ''Hello'' @ nl @ ''world''"
proof -
  let ?w = "served None 200 JNull
             [Tag ''p'' [] [NavigableString ''Hello  world''],
              Tag ''script'' [] [NavigableString ''var x = 1;'']]"
  let ?r = "\<lparr>status_code = 200, json_body = Inr JNull, body_text = []\<rparr>"
  have h: "http ?w (GetPage ''http://example.com/a'') = Inr ?r" by (simp add: served_def)
  have p: "html_parser ?w (body_text ?r) =
             [Tag ''p'' [] [NavigableString ''Hello  world''],
              Tag ''script'' [] [NavigableString ''var x = 1;'']]"
    by (simp add: served_def)
  have c: "limit_length (clean_text ''Hello  world'') = ''Hello'' @ nl @ ''world''" by code_simp
  show ?thesis
    using fallback_fetch_text [of ?w "''http://example.com/a''" "replicate 6000 (CHR ''x'')"] h p c
    by simp
qed

text \<open>
  C7 as stated fails where it says that white space runs are collapsed: two tabs between
  two letters reach the result as they are.
\<close>

theorem tabs_kept_counterexample:
  "fst (fallback_fetch
          (served None 200 JNull [NavigableString [CHR ''a'', CHR 0x09, CHR 0x09, CHR ''b'']])
          ''http://example.com/a'') = [CHR ''a'', CHR 0x09, CHR 0x09, CHR ''b'']"
  by code_simp

end
